theory Spec2Isabelle
  imports Main "HOL-Library.Word"
begin

unbundle bit_operations_syntax

section \<open>The block store of btrdb (internal/bstore/blockstore.go)\<close>

text \<open>
  The theory embeds the functions of \<^verbatim>\<open>blockstore.go\<close>: the address allocator started
  by \<^verbatim>\<open>NewBlockStore\<close>, \<^verbatim>\<open>ObtainGeneration\<close>, the methods of \<^verbatim>\<open>Generation\<close>,
  \<^verbatim>\<open>ReadDatablock\<close> and \<^verbatim>\<open>LoadSuperblock\<close>. The block store is passed explicitly
  and returned updated. An operation either returns, panics (\<^verbatim>\<open>lg.Panic\<close>, a nil
  dereference, the runtime's fatal errors) or waits for a mutex that nobody in a
  sequential run releases.
\<close>

subsection \<open>Machine types\<close>

type_synonym u8 = "8 word"
type_synonym u64 = "64 word"

text \<open>\<^verbatim>\<open>int64\<close>: the same 64 bits, read by \<^term>\<open>sint\<close>.\<close>

type_synonym i64 = "64 word"

text \<open>\<^verbatim>\<open>uuid.UUID\<close> is a byte slice.\<close>

type_synonym UUID = "u8 list"

datatype 'a outcome = Returns 'a | Panics string | Blocks

datatype error = Error string

subsection \<open>Constants declared outside blockstore.go\<close>

text \<open>
  \<^verbatim>\<open>RELOCATION_BASE\<close> and the numeric values of the block types \<^verbatim>\<open>Core\<close> and
  \<^verbatim>\<open>Vector\<close> are declared in other files of the package. They are parameters of the
  model: every function that reads one of them takes the record as its first argument.
\<close>

record Constants =
  RELOCATION_BASE :: u64
  Core_tag :: u8
  Vector_tag :: u8

definition LatestGeneration :: u64 where
  "LatestGeneration = NOT 0"

definition UUIDToMapKey :: "UUID \<Rightarrow> u8 list" where
  "UUIDToMapKey uid = take 16 uid @ replicate (16 - length uid) 0"

subsection \<open>Superblocks and blocks\<close>

record Superblock =
  uuid :: UUID
  gen :: u64
  root :: u64

text \<open>
  Modelled from the spec: \<^verbatim>\<open>NewSuperblock\<close> and \<^verbatim>\<open>CloneInc\<close> are defined in another
  file of the package. The spec: "\<^verbatim>\<open>new(stream_id)\<close>: generation 1, root unset.
  \<^verbatim>\<open>clone_incremented()\<close>: copies all fields, increments generation number, leaves
  root to be overwritten." An unset root is the zero value.
\<close>

definition NewSuperblock :: "UUID \<Rightarrow> Superblock" where
  "NewSuperblock uid = \<lparr>uuid = uid, gen = 1, root = 0\<rparr>"

definition CloneInc :: "Superblock \<Rightarrow> Superblock" where
  "CloneInc s = \<lparr>uuid = uuid s, gen = gen s + 1, root = root s\<rparr>"

text \<open>
  Modelled from the spec: the serialised superblock and \<^verbatim>\<open>DeserializeSuperblock\<close> are
  defined in another file. The spec: "Serialization is a fixed-size binary record;
  deserialization validates stream_id and generation number match what was requested,
  otherwise treated as corruption." The byte layout is not given, so the binary record
  is represented by the three values it encodes.
\<close>

datatype sbrecord = SBRecord UUID u64 u64

definition Serialize :: "Superblock \<Rightarrow> sbrecord" where
  "Serialize s = SBRecord (uuid s) (gen s) (root s)"

fun DeserializeSuperblock :: "UUID \<Rightarrow> u64 \<Rightarrow> sbrecord \<Rightarrow> Superblock outcome" where
  "DeserializeSuperblock uid g (SBRecord i n r) =
     (if i = uid \<and> n = g then Returns \<lparr>uuid = uid, gen = g, root = r\<rparr>
      else Panics ''superblock does not match the requested stream and generation'')"

text \<open>
  \<^verbatim>\<open>Coreblock\<close> and \<^verbatim>\<open>Vectorblock\<close> are declared in another file. blockstore.go
  reads and writes their fields \<^verbatim>\<open>Identifier\<close>, \<^verbatim>\<open>Generation\<close>, \<^verbatim>\<open>PointWidth\<close> and
  \<^verbatim>\<open>StartTime\<close>; the rest of a block is the payload that its serialisation carries.
  \<^verbatim>\<open>Datablock\<close> is the interface both implement.
\<close>

record Block =
  Identifier :: u64
  Generation :: u64
  PointWidth :: u8
  StartTime :: i64
  payload :: "u8 list"

type_synonym Coreblock = Block
type_synonym Vectorblock = Block

datatype Datablock = CoreDB Coreblock | VectorDB Vectorblock

text \<open>The zero value \<^verbatim>\<open>&Coreblock{}\<close>, \<^verbatim>\<open>&Vectorblock{}\<close>.\<close>

definition zero_block :: Block where
  "zero_block = \<lparr>Identifier = 0, Generation = 0, PointWidth = 0, StartTime = 0, payload = []\<rparr>"

datatype BlockType = Core | Vector | Bad

text \<open>
  Modelled from the spec: \<^verbatim>\<open>DatablockGetBufferType\<close> and the blocks' \<^verbatim>\<open>Serialize\<close> and
  \<^verbatim>\<open>Deserialize\<close> are defined in another file. The spec: "a flat address space of block
  payloads each prefixed with a type discriminant distinguishing core/vector blocks";
  "A block's serialized form carries only its own type tag and payload; positional
  metadata is contextual, not intrinsic." A buffer without a recognised discriminant
  (an empty one too) has the type \<^term>\<open>Bad\<close>.
\<close>

definition DatablockGetBufferType :: "Constants \<Rightarrow> u8 list \<Rightarrow> BlockType" where
  "DatablockGetBufferType K buf =
     (case buf of
        [] \<Rightarrow> Bad
      | t # _ \<Rightarrow> if t = Core_tag K then Core else if t = Vector_tag K then Vector else Bad)"

definition Deserialize :: "Block \<Rightarrow> u8 list \<Rightarrow> Block" where
  "Deserialize b buf = b\<lparr>payload := tl buf\<rparr>"

definition SerializeCore :: "Constants \<Rightarrow> Coreblock \<Rightarrow> u8 list" where
  "SerializeCore K b = Core_tag K # payload b"

definition SerializeVector :: "Constants \<Rightarrow> Vectorblock \<Rightarrow> u8 list" where
  "SerializeVector K b = Vector_tag K # payload b"

subsection \<open>The storage provider\<close>

text \<open>
  Modelled from the spec: the storage providers (packages \<^verbatim>\<open>bprovider\<close>,
  \<^verbatim>\<open>fileprovider\<close>, \<^verbatim>\<open>cephprovider\<close>) are not part of blockstore.go. The spec gives
  the capability set: \<^verbatim>\<open>read(stream_id, address, buffer) -> bytes\<close>, "malformed/absent
  -> nil"; \<^verbatim>\<open>get_stream_version(stream_id)\<close>, "0 => stream has no committed
  generation yet"; \<^verbatim>\<open>read_superblock(stream_id, generation_number, buffer) -> bytes |
  nil\<close>; \<^verbatim>\<open>write_superblock(stream_id, generation_number, bytes)\<close>;
  \<^verbatim>\<open>set_stream_version(stream_id, generation_number)\<close>; and the persisted layout: "one
  superblock record per (stream_id, generation_number), plus a latest version index per
  stream, plus a flat address space of block payloads". Writing a block assigns it the
  next free durable address. Every mutating call is appended to \<open>oplog\<close>, which records
  the order in which the provider was called.
\<close>

datatype provider_op =
    OpWriteBlock UUID u64 "u8 list"
  | OpWriteSuperBlock UUID u64 sbrecord
  | OpSetStreamVersion UUID u64

record StorageProvider =
  versions :: "UUID \<Rightarrow> u64"
  superblocks :: "UUID \<times> u64 \<rightharpoonup> sbrecord"
  datablocks :: "UUID \<times> u64 \<rightharpoonup> u8 list"
  free_addr :: u64
  oplog :: "provider_op list"

fun exec_op :: "provider_op \<Rightarrow> StorageProvider \<Rightarrow> StorageProvider" where
  "exec_op (OpWriteBlock uid a bytes) st =
     st\<lparr>datablocks := (datablocks st)((uid, a) \<mapsto> bytes), free_addr := a + 1,
        oplog := oplog st @ [OpWriteBlock uid a bytes]\<rparr>"
| "exec_op (OpWriteSuperBlock uid g bytes) st =
     st\<lparr>superblocks := (superblocks st)((uid, g) \<mapsto> bytes),
        oplog := oplog st @ [OpWriteSuperBlock uid g bytes]\<rparr>"
| "exec_op (OpSetStreamVersion uid g) st =
     st\<lparr>versions := (versions st)(uid := g),
        oplog := oplog st @ [OpSetStreamVersion uid g]\<rparr>"

definition GetStreamVersion :: "StorageProvider \<Rightarrow> UUID \<Rightarrow> u64" where
  "GetStreamVersion st uid = versions st uid"

definition SetStreamVersion :: "StorageProvider \<Rightarrow> UUID \<Rightarrow> u64 \<Rightarrow> StorageProvider" where
  "SetStreamVersion st uid g = exec_op (OpSetStreamVersion uid g) st"

definition ReadSuperBlock :: "StorageProvider \<Rightarrow> UUID \<Rightarrow> u64 \<Rightarrow> sbrecord option" where
  "ReadSuperBlock st uid g = superblocks st (uid, g)"

definition WriteSuperBlock :: "StorageProvider \<Rightarrow> UUID \<Rightarrow> u64 \<Rightarrow> sbrecord \<Rightarrow> StorageProvider" where
  "WriteSuperBlock st uid g bytes = exec_op (OpWriteSuperBlock uid g bytes) st"

definition Read :: "StorageProvider \<Rightarrow> UUID \<Rightarrow> u64 \<Rightarrow> u8 list" where
  "Read st uid a = (case datablocks st (uid, a) of None \<Rightarrow> [] | Some bytes \<Rightarrow> bytes)"

definition WriteBlock :: "StorageProvider \<Rightarrow> UUID \<Rightarrow> u8 list \<Rightarrow> u64 \<times> StorageProvider" where
  "WriteBlock st uid bytes = (free_addr st, exec_op (OpWriteBlock uid (free_addr st) bytes) st)"

subsection \<open>The block store\<close>

text \<open>
  \<^verbatim>\<open>_wlocks\<close> holds one mutex per stream: \<open>Some True\<close> is a locked mutex, \<open>Some False\<close>
  an unlocked one. \<open>cache\<close> stands for \<^verbatim>\<open>cachemap\<close> with the list from \<^verbatim>\<open>cachenew\<close> to
  \<^verbatim>\<open>cacheold\<close>, most recently used entry first. \<open>alloc\<close> is the value at the head of
  the channel \<^verbatim>\<open>bs.alloc\<close>: the channel is first-in first-out and has one sender, so
  the values received are the values sent, in the order of the sender's loop.
\<close>

record BlockStore =
  wlocks :: "u8 list \<rightharpoonup> bool"
  cache :: "(u64 \<times> Datablock) list"
  cachemax :: u64
  cachemiss :: u64
  cachehit :: u64
  store :: StorageProvider
  alloc :: u64

text \<open>
  Modelled from the spec: the cache (\<^verbatim>\<open>initCache\<close>, \<^verbatim>\<open>cacheGet\<close>, \<^verbatim>\<open>cachePut\<close>) is
  defined in another file. The spec: "get on a hit relinks the entry to the
  most-recently-used end and increments the hit counter; on a miss it increments the
  miss counter and returns absence. put inserts at the most-recently-used end; if the
  entry count exceeds the configured maximum, the least-recently-used entry is evicted."
\<close>

definition cacheGet :: "BlockStore \<Rightarrow> u64 \<Rightarrow> Datablock option \<times> BlockStore" where
  "cacheGet bs a =
     (case map_of (cache bs) a of
        None \<Rightarrow> (None, bs\<lparr>cachemiss := cachemiss bs + 1\<rparr>)
      | Some db \<Rightarrow>
          (Some db, bs\<lparr>cache := (a, db) # filter (\<lambda>e. fst e \<noteq> a) (cache bs),
                        cachehit := cachehit bs + 1\<rparr>))"

definition cachePut :: "BlockStore \<Rightarrow> u64 \<Rightarrow> Datablock \<Rightarrow> BlockStore" where
  "cachePut bs a db =
     (let c = (a, db) # filter (\<lambda>e. fst e \<noteq> a) (cache bs)
      in bs\<lparr>cache := (if unat (cachemax bs) < length c then butlast c else c)\<rparr>)"

subsection \<open>The address allocator\<close>

text \<open>
  The body of the sender's loop in \<^verbatim>\<open>NewBlockStore\<close> after the send: the counter is
  incremented (a \<^verbatim>\<open>uint64\<close> addition, which wraps) and reset to the base when it is
  below the base.
\<close>

definition next_relocation_addr :: "Constants \<Rightarrow> u64 \<Rightarrow> u64" where
  "next_relocation_addr K relocation_addr =
     (let r = relocation_addr + 1
      in if r < RELOCATION_BASE K then RELOCATION_BASE K else r)"

text \<open>
  \<^verbatim>\<open>NewBlockStore\<close>: \<open>cachesz\<close> is \<^verbatim>\<open>cfg.BlockCache()\<close> and \<open>st\<close> the database that the
  selected provider opens in \<^verbatim>\<open>Initialize\<close>.
\<close>

definition NewBlockStore :: "Constants \<Rightarrow> u64 \<Rightarrow> StorageProvider \<Rightarrow> BlockStore" where
  "NewBlockStore K cachesz st =
     \<lparr>wlocks = Map.empty, cache = [], cachemax = cachesz, cachemiss = 0, cachehit = 0,
      store = st, alloc = RELOCATION_BASE K\<rparr>"

definition allocateBlock :: "Constants \<Rightarrow> BlockStore \<Rightarrow> u64 \<times> BlockStore" where
  "allocateBlock K bs = (alloc bs, bs\<lparr>alloc := next_relocation_addr K (alloc bs)\<rparr>)"

subsection \<open>Generations\<close>

text \<open>
  The field \<^verbatim>\<open>blockstore\<close> of a generation points to the block store that made it;
  here the block store is an argument of every method that follows the pointer.
\<close>

record Generation =
  Cur_SB :: Superblock
  New_SB :: Superblock
  cblocks :: "Coreblock list"
  vblocks :: "Vectorblock list"
  flushed :: bool

definition UpdateRootAddr :: "Generation \<Rightarrow> u64 \<Rightarrow> Generation" where
  "UpdateRootAddr g addr = g\<lparr>New_SB := (New_SB g)\<lparr>root := addr\<rparr>\<rparr>"

definition Uuid :: "Generation \<Rightarrow> UUID" where
  "Uuid g = uuid (Cur_SB g)"

definition Number :: "Generation \<Rightarrow> u64" where
  "Number g = gen (New_SB g)"

definition ObtainGeneration :: "BlockStore \<Rightarrow> UUID \<Rightarrow> (Generation \<times> BlockStore) outcome" where
  "ObtainGeneration bs uid =
     (let mk = UUIDToMapKey uid in
      if wlocks bs mk = Some True then Blocks
      else
        let bs1 = bs\<lparr>wlocks := (wlocks bs)(mk \<mapsto> True)\<rparr>;
            existingVer = GetStreamVersion (store bs1) uid
        in if existingVer = 0 then
             let cur = NewSuperblock uid
             in Returns (\<lparr>Cur_SB = cur, New_SB = CloneInc cur, cblocks = [], vblocks = [],
                          flushed = False\<rparr>, bs1)
           else
             (case ReadSuperBlock (store bs1) uid existingVer of
                None \<Rightarrow>
                  Panics ''Your database is corrupt, superblock %d on stream %s does not exist''
              | Some sbarr \<Rightarrow>
                  (case DeserializeSuperblock uid existingVer sbarr of
                     Returns cur \<Rightarrow>
                       Returns (\<lparr>Cur_SB = cur, New_SB = CloneInc cur, cblocks = [],
                                 vblocks = [], flushed = False\<rparr>, bs1)
                   | Panics msg \<Rightarrow> Panics msg
                   | Blocks \<Rightarrow> Blocks)))"

text \<open>
  Modelled from the spec: \<^verbatim>\<open>LinkAndStore\<close> is defined in another file. The spec:
  "Durably write every allocated core/vector block to the storage provider, producing a
  mapping from temporary address to assigned durable address". The vector blocks are
  written first, in the order of the argument list. How the child addresses inside a
  core block are rewritten belongs to the layout of the payload, which is opaque here.
\<close>

fun store_blocks ::
  "UUID \<Rightarrow> (Block \<Rightarrow> u8 list) \<Rightarrow> Block list \<Rightarrow> (u64 \<rightharpoonup> u64) \<times> StorageProvider
     \<Rightarrow> (u64 \<rightharpoonup> u64) \<times> StorageProvider" where
  "store_blocks uid ser [] (m, st) = (m, st)"
| "store_blocks uid ser (b # blks) (m, st) =
     (let (a, st') = WriteBlock st uid (ser b)
      in store_blocks uid ser blks (m(Identifier b \<mapsto> a), st'))"

definition LinkAndStore ::
  "Constants \<Rightarrow> UUID \<Rightarrow> BlockStore \<Rightarrow> Vectorblock list \<Rightarrow> Coreblock list
     \<Rightarrow> (u64 \<rightharpoonup> u64) \<times> BlockStore" where
  "LinkAndStore K uid bs vbs cbs =
     (let (m, st) = store_blocks uid (SerializeCore K) cbs
                      (store_blocks uid (SerializeVector K) vbs (Map.empty, store bs))
      in (m, bs\<lparr>store := st\<rparr>))"

definition AlreadyFlushed :: error where
  "AlreadyFlushed = Error ''Already Flushed''"

text \<open>
  \<^verbatim>\<open>Commit\<close> returns \<^verbatim>\<open>(nil, err)\<close> or \<^verbatim>\<open>(address_map, nil)\<close>: a sum. At the end it
  unlocks the stream's mutex: a missing entry of \<^verbatim>\<open>_wlocks\<close> is a nil dereference and
  unlocking an unlocked mutex is a fatal error of the runtime.
\<close>

definition Commit ::
  "Constants \<Rightarrow> Generation \<Rightarrow> BlockStore
     \<Rightarrow> ((error + (u64 \<rightharpoonup> u64)) \<times> Generation \<times> BlockStore) outcome" where
  "Commit K g bs =
     (if flushed g then Returns (Inl AlreadyFlushed, g, bs)
      else
        let (address_map, bs1) = LinkAndStore K (Uuid g) bs (vblocks g) (cblocks g)
        in case address_map (root (New_SB g)) of
             None \<Rightarrow> Panics ''Could not obtain root address''
           | Some rootaddr \<Rightarrow>
               let g1 = g\<lparr>New_SB := (New_SB g)\<lparr>root := rootaddr\<rparr>\<rparr>;
                   g2 = g1\<lparr>vblocks := [], cblocks := []\<rparr>;
                   st1 = WriteSuperBlock (store bs1) (uuid (New_SB g2)) (gen (New_SB g2))
                           (Serialize (New_SB g2));
                   st2 = SetStreamVersion st1 (uuid (New_SB g2)) (gen (New_SB g2));
                   g3 = g2\<lparr>flushed := True\<rparr>;
                   bs2 = bs1\<lparr>store := st2\<rparr>;
                   mk = UUIDToMapKey (Uuid g3)
               in (case wlocks bs2 mk of
                     None \<Rightarrow> Panics ''invalid memory address or nil pointer dereference''
                   | Some locked \<Rightarrow>
                       if locked
                       then Returns (Inr address_map, g3,
                                     bs2\<lparr>wlocks := (wlocks bs2)(mk \<mapsto> False)\<rparr>)
                       else Panics ''sync: unlock of unlocked mutex''))"

text \<open>
  The allocation methods return \<^verbatim>\<open>(block, nil)\<close>. The caller fills the block through
  the pointer it gets; the list of the generation holds the block as allocated.
\<close>

definition AllocateCoreblock ::
  "Constants \<Rightarrow> Generation \<Rightarrow> BlockStore \<Rightarrow> Coreblock \<times> Generation \<times> BlockStore" where
  "AllocateCoreblock K g bs =
     (let (a, bs') = allocateBlock K bs;
          cblock = zero_block\<lparr>Identifier := a, Generation := Number g\<rparr>
      in (cblock, g\<lparr>cblocks := cblocks g @ [cblock]\<rparr>, bs'))"

definition AllocateVectorblock ::
  "Constants \<Rightarrow> Generation \<Rightarrow> BlockStore \<Rightarrow> Vectorblock \<times> Generation \<times> BlockStore" where
  "AllocateVectorblock K g bs =
     (let (a, bs') = allocateBlock K bs;
          vblock = zero_block\<lparr>Identifier := a, Generation := Number g\<rparr>
      in (vblock, g\<lparr>vblocks := vblocks g @ [vblock]\<rparr>, bs'))"

subsection \<open>Reading blocks and superblocks\<close>

definition ReadDatablock ::
  "Constants \<Rightarrow> BlockStore \<Rightarrow> UUID \<Rightarrow> u64 \<Rightarrow> u64 \<Rightarrow> u8 \<Rightarrow> i64
     \<Rightarrow> (Datablock \<times> BlockStore) outcome" where
  "ReadDatablock K bs uid addr impl_Generation impl_Pointwidth impl_StartTime =
     (case cacheGet bs addr of
        (Some db, bs1) \<Rightarrow> Returns (db, bs1)
      | (None, bs1) \<Rightarrow>
          let trimbuf = Read (store bs1) uid addr
          in (case DatablockGetBufferType K trimbuf of
               Core \<Rightarrow>
                 let rv = Deserialize zero_block trimbuf;
                     rv = rv\<lparr>Identifier := addr\<rparr>;
                     rv = rv\<lparr>Generation := impl_Generation\<rparr>;
                     rv = rv\<lparr>PointWidth := impl_Pointwidth\<rparr>;
                     rv = rv\<lparr>StartTime := impl_StartTime\<rparr>
                 in Returns (CoreDB rv, cachePut bs1 addr (CoreDB rv))
             | Vector \<Rightarrow>
                 let rv = Deserialize zero_block trimbuf;
                     rv = rv\<lparr>Identifier := addr\<rparr>;
                     rv = rv\<lparr>Generation := impl_Generation\<rparr>;
                     rv = rv\<lparr>PointWidth := impl_Pointwidth\<rparr>;
                     rv = rv\<lparr>StartTime := impl_StartTime\<rparr>
                 in Returns (VectorDB rv, cachePut bs1 addr (VectorDB rv))
             | Bad \<Rightarrow> Panics ''Strange datablock type''))"

definition LoadSuperblock :: "BlockStore \<Rightarrow> UUID \<Rightarrow> u64 \<Rightarrow> Superblock option outcome" where
  "LoadSuperblock bs uid generation =
     (let latestGen = GetStreamVersion (store bs) uid in
      if latestGen = 0 then Returns None
      else
        let generation = (if generation = LatestGeneration then latestGen else generation)
        in if generation > latestGen then Returns None
           else
             (case ReadSuperBlock (store bs) uid generation of
                None \<Rightarrow>
                  Panics ''Your database is corrupt, superblock %d for stream %s should exist (but doesn't)''
              | Some sbarr \<Rightarrow> map_outcome Some (DeserializeSuperblock uid generation sbarr)))"

subsection \<open>Runs of calls\<close>

text \<open>\<open>n\<close> consecutive calls of \<^verbatim>\<open>allocateBlock\<close>, with the addresses in the order returned.\<close>

fun allocations :: "Constants \<Rightarrow> nat \<Rightarrow> BlockStore \<Rightarrow> u64 list \<times> BlockStore" where
  "allocations K 0 bs = ([], bs)"
| "allocations K (Suc n) bs =
     (let (a, bs1) = allocateBlock K bs;
          (as, bs2) = allocations K n bs1
      in (a # as, bs2))"

text \<open>
  What a writer does with a generation between \<^verbatim>\<open>ObtainGeneration\<close> and \<^verbatim>\<open>Commit\<close>.
\<close>

datatype action = DoAllocateCoreblock | DoAllocateVectorblock | DoUpdateRootAddr u64

fun perform :: "Constants \<Rightarrow> action \<Rightarrow> Generation \<times> BlockStore \<Rightarrow> Generation \<times> BlockStore" where
  "perform K DoAllocateCoreblock (g, bs) = snd (AllocateCoreblock K g bs)"
| "perform K DoAllocateVectorblock (g, bs) = snd (AllocateVectorblock K g bs)"
| "perform K (DoUpdateRootAddr a) (g, bs) = (UpdateRootAddr g a, bs)"

text \<open>
  One write pass on a stream: obtain a generation, perform the actions, commit. The
  result is the number of the generation and the block store after a commit that
  returned the address map, and \<open>None\<close> when a call did not return or \<^verbatim>\<open>Commit\<close>
  returned an error.
\<close>

definition write_pass ::
  "Constants \<Rightarrow> UUID \<Rightarrow> action list \<Rightarrow> BlockStore \<Rightarrow> (u64 \<times> BlockStore) option" where
  "write_pass K uid acts bs =
     (case ObtainGeneration bs uid of
        Returns (g, bs1) \<Rightarrow>
          (case fold (perform K) acts (g, bs1) of
             (g1, bs2) \<Rightarrow>
               (case Commit K g1 bs2 of
                  Returns (Inr m, g2, bs3) \<Rightarrow> Some (Number g2, bs3)
                | _ \<Rightarrow> None))
      | _ \<Rightarrow> None)"

fun write_passes ::
  "Constants \<Rightarrow> UUID \<Rightarrow> action list list \<Rightarrow> BlockStore \<Rightarrow> (u64 list \<times> BlockStore) option" where
  "write_passes K uid [] bs = Some ([], bs)"
| "write_passes K uid (acts # rest) bs =
     (case write_pass K uid acts bs of
        None \<Rightarrow> None
      | Some (n, bs1) \<Rightarrow>
          (case write_passes K uid rest bs1 of
             None \<Rightarrow> None
           | Some (ns, bs2) \<Rightarrow> Some (n # ns, bs2)))"

text \<open>The provider's state along a sequence of calls.\<close>

definition replay :: "provider_op list \<Rightarrow> StorageProvider \<Rightarrow> StorageProvider" where
  "replay ops st = fold exec_op ops st"

text \<open>The latest-version pointer of a stream is 0 or names a superblock that is stored.\<close>

definition latest_written :: "StorageProvider \<Rightarrow> UUID \<Rightarrow> bool" where
  "latest_written st uid =
     (GetStreamVersion st uid = 0 \<or> ReadSuperBlock st uid (GetStreamVersion st uid) \<noteq> None)"

text \<open>Sample values: constants, an empty database and a stream identifier.\<close>

definition K0 :: Constants where
  "K0 = \<lparr>RELOCATION_BASE = 0xFF00000000000000, Core_tag = 2, Vector_tag = 1\<rparr>"

definition empty_provider :: StorageProvider where
  "empty_provider =
     \<lparr>versions = (\<lambda>_. 0), superblocks = Map.empty, datablocks = Map.empty,
      free_addr = 1, oplog = []\<rparr>"

definition stream1 :: UUID where
  "stream1 = [1, 2, 3, 4, 5, 6, 7, 8, 9, 10, 11, 12, 13, 14, 15, 16]"

text \<open>
  The superblock of generation \<open>n\<close> of a stream can be read: its record is stored and
  decodes for that stream and generation.
\<close>

definition readable_superblock :: "StorageProvider \<Rightarrow> UUID \<Rightarrow> u64 \<Rightarrow> bool" where
  "readable_superblock st uid n =
     (case ReadSuperBlock st uid n of
        None \<Rightarrow> False
      | Some sbarr \<Rightarrow>
          (case DeserializeSuperblock uid n sbarr of Returns sb \<Rightarrow> True | _ \<Rightarrow> False))"

fun is_block_write :: "provider_op \<Rightarrow> bool" where
  "is_block_write (OpWriteBlock uid a bytes) = True"
| "is_block_write (OpWriteSuperBlock uid g bytes) = False"
| "is_block_write (OpSetStreamVersion uid g) = False"

text \<open>
  A generation of \<open>stream1\<close> on an empty database, with one vector block allocated and
  made the root, and the block store at that moment.
\<close>

definition open_gen :: Generation where
  "open_gen =
     \<lparr>Cur_SB = \<lparr>uuid = stream1, gen = 1, root = 0\<rparr>,
      New_SB = \<lparr>uuid = stream1, gen = 2, root = 0xFF00000000000000\<rparr>,
      cblocks = [],
      vblocks = [\<lparr>Identifier = 0xFF00000000000000, Generation = 2, PointWidth = 0,
                  StartTime = 0, payload = []\<rparr>],
      flushed = False\<rparr>"

definition open_store :: BlockStore where
  "open_store =
     \<lparr>wlocks = [stream1 \<mapsto> True], cache = [], cachemax = 4, cachemiss = 0, cachehit = 0,
      store = empty_provider, alloc = 0xFF00000000000001\<rparr>"

text \<open>A database that holds one vector block and one core block of \<open>stream1\<close>.\<close>

definition block_provider :: StorageProvider where
  "block_provider =
     empty_provider\<lparr>datablocks := [(stream1, 1) \<mapsto> [1, 7, 7], (stream1, 2) \<mapsto> [2, 9],
                                    (stream1, 3) \<mapsto> [5, 5]],
                    free_addr := 4\<rparr>"

text \<open>A block store opened on that database.\<close>

definition read_store :: BlockStore where
  "read_store = NewBlockStore K0 4 block_provider"

text \<open>
  A database whose version index says that \<open>stream1\<close> is at generation 2 and that holds
  no superblock.
\<close>

definition corrupt_store :: BlockStore where
  "corrupt_store = NewBlockStore K0 4 (empty_provider\<lparr>versions := (\<lambda>_. 0)(stream1 := 2)\<rparr>)"

text \<open>
  The block store after \<^verbatim>\<open>Commit\<close> of that generation: \<open>stream1\<close> is at generation 2,
  its superblock with the durable root 1 is stored and its mutex is free.
\<close>

definition committed_store :: BlockStore where
  "committed_store =
     \<lparr>wlocks = [stream1 \<mapsto> False], cache = [], cachemax = 4, cachemiss = 0, cachehit = 0,
      store = \<lparr>versions = (\<lambda>_. 0)(stream1 := 2),
               superblocks = [(stream1, 2) \<mapsto> SBRecord stream1 2 1],
               datablocks = [(stream1, 1) \<mapsto> [1]],
               free_addr = 2,
               oplog = [OpWriteBlock stream1 1 [1],
                        OpWriteSuperBlock stream1 2 (SBRecord stream1 2 1),
                        OpSetStreamVersion stream1 2]\<rparr>,
      alloc = 0xFF00000000000001\<rparr>"

section \<open>The address allocator\<close>

lemma next_relocation_addr_ge:
  "RELOCATION_BASE K \<le> next_relocation_addr K a"
  by (simp add: next_relocation_addr_def Let_def linorder_not_less)

lemma next_relocation_addr_succ:
  "RELOCATION_BASE K \<le> a \<Longrightarrow> unat a + 1 < 2 ^ 64 \<Longrightarrow> next_relocation_addr K a = a + 1"
proof -
  assume b: "RELOCATION_BASE K \<le> a" and n: "unat a + 1 < 2 ^ 64"
  have "unat (a + 1) = unat a + 1"
    using n by (simp add: unat_word_ariths)
  then have "a \<le> a + 1"
    by (simp add: word_le_nat_alt)
  with b have "\<not> a + 1 < RELOCATION_BASE K"
    by simp
  then show ?thesis
    by (simp add: next_relocation_addr_def Let_def)
qed

lemma allocations_Suc:
  "allocations K (Suc n) bs =
     (alloc bs # fst (allocations K n (bs\<lparr>alloc := next_relocation_addr K (alloc bs)\<rparr>)),
      snd (allocations K n (bs\<lparr>alloc := next_relocation_addr K (alloc bs)\<rparr>)))"
  by (simp add: allocateBlock_def split: prod.splits)

lemma allocations_alloc:
  "RELOCATION_BASE K \<le> alloc bs \<Longrightarrow> unat (alloc bs) + n < 2 ^ 64 \<Longrightarrow>
     alloc (snd (allocations K n bs)) = alloc bs + of_nat n"
proof (induction n arbitrary: bs)
  case 0
  then show ?case by simp
next
  case (Suc n)
  let ?bs1 = "bs\<lparr>alloc := next_relocation_addr K (alloc bs)\<rparr>"
  have nx: "next_relocation_addr K (alloc bs) = alloc bs + 1"
    using Suc.prems by (intro next_relocation_addr_succ) simp_all
  have u: "unat (alloc bs + 1) = unat (alloc bs) + 1"
    using Suc.prems by (simp add: unat_word_ariths)
  have "alloc (snd (allocations K n ?bs1)) = alloc ?bs1 + of_nat n"
    using Suc.prems nx u next_relocation_addr_ge [of K "alloc bs"] by (intro Suc.IH) simp_all
  then show ?case
    by (simp add: allocations_Suc nx del: allocations.simps)
qed

lemma allocations_fst:
  "RELOCATION_BASE K \<le> alloc bs \<Longrightarrow> unat (alloc bs) + n \<le> 2 ^ 64 \<Longrightarrow>
     fst (allocations K n bs) = map (\<lambda>i. alloc bs + of_nat i) [0..<n]"
proof (induction n arbitrary: bs)
  case 0
  then show ?case by simp
next
  case (Suc n)
  let ?bs1 = "bs\<lparr>alloc := next_relocation_addr K (alloc bs)\<rparr>"
  show ?case
  proof (cases n)
    case 0
    then show ?thesis by (simp add: allocateBlock_def split: prod.splits)
  next
    case (Suc k)
    have nx: "next_relocation_addr K (alloc bs) = alloc bs + 1"
      using Suc.prems Suc by (intro next_relocation_addr_succ) simp_all
    have u: "unat (alloc bs + 1) = unat (alloc bs) + 1"
      using Suc.prems Suc by (simp add: unat_word_ariths)
    have ih: "fst (allocations K n ?bs1) = map (\<lambda>i. alloc ?bs1 + of_nat i) [0..<n]"
      using Suc.prems nx u next_relocation_addr_ge [of K "alloc bs"] by (intro Suc.IH) simp_all
    have "[0..<Suc n] = 0 # map Suc [0..<n]"
      by (simp add: upt_conv_Cons map_Suc_upt del: upt_Suc)
    then have "map (\<lambda>i. alloc bs + of_nat i) [0..<Suc n]
                 = alloc bs # map (\<lambda>i. alloc bs + 1 + of_nat i) [0..<n]"
      by (simp add: comp_def add.assoc del: upt_Suc)
    with ih nx show ?thesis
      by (simp add: allocations_Suc del: upt_Suc allocations.simps)
  qed
qed

lemma increasing_run:
  "unat (a :: u64) + n \<le> 2 ^ 64 \<Longrightarrow> sorted_wrt (<) (map (\<lambda>i. a + of_nat i) [0..<n])"
proof -
  assume b: "unat a + n \<le> 2 ^ 64"
  have u: "unat (a + of_nat i) = unat a + i" if "i < n" for i
    using that b by (simp add: unat_word_ariths unat_of_nat)
  have "a + of_nat i < a + of_nat j" if "i < j" "j < n" for i j
    using that u [of i] u [of j] by (simp add: word_less_nat_alt)
  then show ?thesis
    by (simp add: sorted_wrt_map sorted_wrt_iff_nth_less)
qed

lemma Allocate_allocateBlock:
  "Identifier (fst (AllocateCoreblock K g bs)) = fst (allocateBlock K bs)
   \<and> snd (snd (AllocateCoreblock K g bs)) = snd (allocateBlock K bs)
   \<and> Identifier (fst (AllocateVectorblock K g bs)) = fst (allocateBlock K bs)
   \<and> snd (snd (AllocateVectorblock K g bs)) = snd (allocateBlock K bs)"
  by (simp add: AllocateCoreblock_def AllocateVectorblock_def Let_def split: prod.splits)

text \<open>
  C8. A run of \<open>n\<close> consecutive allocations, after \<open>m\<close> earlier ones on a new block
  store, returns the addresses base + m, base + m + 1, ...: strictly increasing and
  pairwise distinct, and starting at the relocation base when \<open>m = 0\<close>, as long as the
  counter stays within 64 bits. \<^verbatim>\<open>AllocateCoreblock\<close> and \<^verbatim>\<open>AllocateVectorblock\<close> give
  their block the address of one such allocation and leave the block store as that
  allocation does.
\<close>

theorem C8_allocations_increasing:
  "unat (RELOCATION_BASE K) + m + n \<le> 2 ^ 64 \<Longrightarrow>
     fst (allocations K n (snd (allocations K m (NewBlockStore K cachesz st))))
       = map (\<lambda>i. RELOCATION_BASE K + of_nat (m + i)) [0..<n]
     \<and> sorted_wrt (<) (fst (allocations K n (snd (allocations K m (NewBlockStore K cachesz st)))))
     \<and> distinct (fst (allocations K n (snd (allocations K m (NewBlockStore K cachesz st)))))
     \<and> Identifier (fst (AllocateCoreblock K g bs)) = fst (allocateBlock K bs)
     \<and> snd (snd (AllocateCoreblock K g bs)) = snd (allocateBlock K bs)
     \<and> Identifier (fst (AllocateVectorblock K g bs)) = fst (allocateBlock K bs)
     \<and> snd (snd (AllocateVectorblock K g bs)) = snd (allocateBlock K bs)"
proof (cases n)
  case 0
  then show ?thesis
    using Allocate_allocateBlock [of K g bs] by simp
next
  case (Suc k)
  assume b: "unat (RELOCATION_BASE K) + m + n \<le> 2 ^ 64"
  let ?ini = "NewBlockStore K cachesz st"
  let ?bs = "snd (allocations K m ?ini)"
  have a0: "alloc ?ini = RELOCATION_BASE K"
    by (simp add: NewBlockStore_def)
  have am: "alloc ?bs = RELOCATION_BASE K + of_nat m"
    using allocations_alloc [of K ?ini m] a0 b Suc by simp
  have um: "unat (RELOCATION_BASE K + of_nat m) = unat (RELOCATION_BASE K) + m"
    using b Suc by (simp add: unat_word_ariths unat_of_nat)
  then have ge: "RELOCATION_BASE K \<le> alloc ?bs"
    by (simp add: am word_le_nat_alt)
  have run: "fst (allocations K n ?bs) = map (\<lambda>i. alloc ?bs + of_nat i) [0..<n]"
    using ge b um am by (intro allocations_fst) simp_all
  have s: "sorted_wrt (<) (fst (allocations K n ?bs))"
    unfolding run using b um am by (intro increasing_run) simp
  have d: "distinct (fst (allocations K n ?bs))"
    using s by (simp add: strict_sorted_iff)
  show ?thesis
    using run s d Allocate_allocateBlock [of K g bs] by (simp add: am add.assoc)
qed

text \<open>
  C9. When the increment wraps the counter to a value below the relocation base, the
  next address is the relocation base again; every address that the allocator of a new
  block store hands out is at least the relocation base.
\<close>

theorem C9_allocator_reset_to_base:
  "next_relocation_addr K (NOT 0) = RELOCATION_BASE K
   \<and> (a + 1 < RELOCATION_BASE K \<longrightarrow> next_relocation_addr K a = RELOCATION_BASE K)
   \<and> (\<forall>x \<in> set (fst (allocations K n (NewBlockStore K cachesz st))). RELOCATION_BASE K \<le> x)"
proof -
  have "RELOCATION_BASE K \<le> alloc bs' \<Longrightarrow> \<forall>x \<in> set (fst (allocations K n bs')). RELOCATION_BASE K \<le> x" for bs'
  proof (induction n arbitrary: bs')
    case 0
    then show ?case by simp
  next
    case (Suc n)
    have "\<forall>x \<in> set (fst (allocations K n (bs'\<lparr>alloc := next_relocation_addr K (alloc bs')\<rparr>))).
            RELOCATION_BASE K \<le> x"
      by (intro Suc.IH) (simp add: next_relocation_addr_ge)
    with Suc.prems show ?case
      by (simp add: allocations_Suc del: allocations.simps)
  qed
  from this [of "NewBlockStore K cachesz st"]
  have "\<forall>x \<in> set (fst (allocations K n (NewBlockStore K cachesz st))). RELOCATION_BASE K \<le> x"
    by (simp add: NewBlockStore_def)
  moreover have "next_relocation_addr K (NOT 0) = RELOCATION_BASE K"
    by (simp add: next_relocation_addr_def Let_def word_gt_0)
  moreover have "a + 1 < RELOCATION_BASE K \<longrightarrow> next_relocation_addr K a = RELOCATION_BASE K"
    by (simp add: next_relocation_addr_def Let_def)
  ultimately show ?thesis by blast
qed

theorem C8_allocations_increasing_witness:
  "unat (RELOCATION_BASE K0) + 1 + 2 \<le> 2 ^ 64
   \<and> fst (allocations K0 2 (snd (allocations K0 1 (NewBlockStore K0 4 empty_provider))))
       = [0xFF00000000000001, 0xFF00000000000002]
   \<and> sorted_wrt (<) (fst (allocations K0 2 (snd (allocations K0 1 (NewBlockStore K0 4 empty_provider)))))"
proof -
  have h: "unat (RELOCATION_BASE K0) + 1 + 2 \<le> 2 ^ 64"
    by (simp add: K0_def)
  have e: "fst (allocations K0 2 (snd (allocations K0 1 (NewBlockStore K0 4 empty_provider))))
             = [0xFF00000000000001, 0xFF00000000000002]"
    by code_simp
  from C8_allocations_increasing [OF h, of 4 empty_provider open_gen open_store] h e
  show ?thesis
    by blast
qed

theorem C9_allocator_reset_to_base_witness:
  "(0xFFFFFFFFFFFFFFFF :: u64) + 1 < RELOCATION_BASE K0
   \<and> next_relocation_addr K0 0xFFFFFFFFFFFFFFFF = RELOCATION_BASE K0
   \<and> 0xFF00000000000001 \<in> set (fst (allocations K0 2 (NewBlockStore K0 4 empty_provider)))
   \<and> RELOCATION_BASE K0 \<le> 0xFF00000000000001"
proof -
  have h: "(0xFFFFFFFFFFFFFFFF :: u64) + 1 < RELOCATION_BASE K0"
    by (simp add: K0_def)
  have m: "0xFF00000000000001 \<in> set (fst (allocations K0 2 (NewBlockStore K0 4 empty_provider)))"
    by code_simp
  from C9_allocator_reset_to_base [of K0 "0xFFFFFFFFFFFFFFFF" 2 4 empty_provider] h m
  show ?thesis by blast
qed


section \<open>Reading superblocks and blocks\<close>

lemma DeserializeSuperblock_cases:
  "(\<exists>r. DeserializeSuperblock uid g b = Returns \<lparr>uuid = uid, gen = g, root = r\<rparr>)
   \<or> DeserializeSuperblock uid g b
        = Panics ''superblock does not match the requested stream and generation''"
  by (cases b) simp

lemma LoadSuperblock_unfold:
  "LoadSuperblock bs uid g =
     (if GetStreamVersion (store bs) uid = 0 then Returns None
      else if GetStreamVersion (store bs) uid
                < (if g = LatestGeneration then GetStreamVersion (store bs) uid else g)
      then Returns None
      else (case ReadSuperBlock (store bs) uid
                   (if g = LatestGeneration then GetStreamVersion (store bs) uid else g) of
              None \<Rightarrow> Panics ''Your database is corrupt, superblock %d for stream %s should exist (but doesn't)''
            | Some sbarr \<Rightarrow>
                map_outcome Some
                  (DeserializeSuperblock uid
                     (if g = LatestGeneration then GetStreamVersion (store bs) uid else g) sbarr)))"
  by (simp add: LoadSuperblock_def Let_def)

text \<open>
  C5. \<^verbatim>\<open>LoadSuperblock\<close> returns nil for a stream whose version is 0; it treats
  \<^verbatim>\<open>LatestGeneration\<close> as the provider's current version; it returns nil for a
  generation number (the sentinel is not one) above the current version; it never
  waits; and it panics exactly when the current version is not 0, the generation asked
  for is at most the current version and its superblock cannot be read. The panic of
  \<^verbatim>\<open>LoadSuperblock\<close>'s own check is the case of a superblock that is not stored.
\<close>

theorem C5_LoadSuperblock_absent_or_corrupt:
  "(GetStreamVersion (store bs) uid = 0 \<longrightarrow> LoadSuperblock bs uid g = Returns None)
   \<and> LoadSuperblock bs uid LatestGeneration
       = LoadSuperblock bs uid (GetStreamVersion (store bs) uid)
   \<and> (g \<noteq> LatestGeneration \<and> GetStreamVersion (store bs) uid < g
        \<longrightarrow> LoadSuperblock bs uid g = Returns None)
   \<and> LoadSuperblock bs uid g \<noteq> Blocks
   \<and> ((\<exists>msg. LoadSuperblock bs uid g = Panics msg) \<longleftrightarrow>
        GetStreamVersion (store bs) uid \<noteq> 0
        \<and> (if g = LatestGeneration then GetStreamVersion (store bs) uid else g)
              \<le> GetStreamVersion (store bs) uid
        \<and> \<not> readable_superblock (store bs) uid
               (if g = LatestGeneration then GetStreamVersion (store bs) uid else g))
   \<and> (LoadSuperblock bs uid g
         = Panics ''Your database is corrupt, superblock %d for stream %s should exist (but doesn't)''
       \<longleftrightarrow>
        GetStreamVersion (store bs) uid \<noteq> 0
        \<and> (if g = LatestGeneration then GetStreamVersion (store bs) uid else g)
              \<le> GetStreamVersion (store bs) uid
        \<and> ReadSuperBlock (store bs) uid
             (if g = LatestGeneration then GetStreamVersion (store bs) uid else g) = None)"
proof -
  let ?v = "GetStreamVersion (store bs) uid"
  let ?n = "if g = LatestGeneration then ?v else g"
  have a: "?v = 0 \<longrightarrow> LoadSuperblock bs uid g = Returns None"
    by (simp add: LoadSuperblock_unfold)
  have b: "LoadSuperblock bs uid LatestGeneration = LoadSuperblock bs uid ?v"
    by (simp add: LoadSuperblock_unfold)
  have c: "g \<noteq> LatestGeneration \<and> ?v < g \<longrightarrow> LoadSuperblock bs uid g = Returns None"
    by (simp add: LoadSuperblock_unfold)
  have d: "LoadSuperblock bs uid g \<noteq> Blocks"
  proof (cases "ReadSuperBlock (store bs) uid ?n")
    case None
    then show ?thesis by (simp add: LoadSuperblock_unfold)
  next
    case (Some sbarr)
    with DeserializeSuperblock_cases [of uid ?n sbarr] show ?thesis
      by (auto simp: LoadSuperblock_unfold)
  qed
  have e: "(\<exists>msg. LoadSuperblock bs uid g = Panics msg) \<longleftrightarrow>
             ?v \<noteq> 0 \<and> ?n \<le> ?v \<and> \<not> readable_superblock (store bs) uid ?n"
  proof (cases "ReadSuperBlock (store bs) uid ?n")
    case None
    then show ?thesis
      by (auto simp: LoadSuperblock_unfold readable_superblock_def)
  next
    case (Some sbarr)
    with DeserializeSuperblock_cases [of uid ?n sbarr] show ?thesis
      by (auto simp: LoadSuperblock_unfold readable_superblock_def)
  qed
  have f: "LoadSuperblock bs uid g
             = Panics ''Your database is corrupt, superblock %d for stream %s should exist (but doesn't)''
           \<longleftrightarrow> ?v \<noteq> 0 \<and> ?n \<le> ?v \<and> ReadSuperBlock (store bs) uid ?n = None"
  proof (cases "ReadSuperBlock (store bs) uid ?n")
    case None
    then show ?thesis
      by (auto simp: LoadSuperblock_unfold)
  next
    case (Some sbarr)
    with DeserializeSuperblock_cases [of uid ?n sbarr] show ?thesis
      by (auto simp: LoadSuperblock_unfold)
  qed
  from a b c d e f show ?thesis by blast
qed

theorem C5_LoadSuperblock_absent_or_corrupt_witness:
  "GetStreamVersion (store (NewBlockStore K0 4 empty_provider)) stream1 = 0
   \<and> LoadSuperblock (NewBlockStore K0 4 empty_provider) stream1 7 = Returns None
   \<and> (7 :: u64) \<noteq> LatestGeneration
   \<and> GetStreamVersion (store corrupt_store) stream1 < 7
   \<and> LoadSuperblock corrupt_store stream1 7 = Returns None
   \<and> GetStreamVersion (store corrupt_store) stream1 \<noteq> 0
   \<and> \<not> readable_superblock (store corrupt_store) stream1 2
   \<and> (\<exists>msg. LoadSuperblock corrupt_store stream1 2 = Panics msg)"
proof -
  have v0: "GetStreamVersion (store (NewBlockStore K0 4 empty_provider)) stream1 = 0"
    by (simp add: GetStreamVersion_def NewBlockStore_def empty_provider_def)
  have v2: "GetStreamVersion (store corrupt_store) stream1 = 2"
    by (simp add: GetStreamVersion_def corrupt_store_def NewBlockStore_def)
  have n7: "(7 :: u64) \<noteq> LatestGeneration"
    by (simp add: LatestGeneration_def)
  have n2: "(2 :: u64) \<noteq> LatestGeneration"
    by (simp add: LatestGeneration_def)
  have nr: "\<not> readable_superblock (store corrupt_store) stream1 2"
    by (simp add: readable_superblock_def ReadSuperBlock_def corrupt_store_def
          NewBlockStore_def empty_provider_def)
  have a: "LoadSuperblock (NewBlockStore K0 4 empty_provider) stream1 7 = Returns None"
    using C5_LoadSuperblock_absent_or_corrupt [of "NewBlockStore K0 4 empty_provider" stream1 7] v0
    by blast
  have b: "LoadSuperblock corrupt_store stream1 7 = Returns None"
    using C5_LoadSuperblock_absent_or_corrupt [of corrupt_store stream1 7] v2 n7
    by simp
  have c: "\<exists>msg. LoadSuperblock corrupt_store stream1 2 = Panics msg"
    using C5_LoadSuperblock_absent_or_corrupt [of corrupt_store stream1 2] v2 n2 nr
    by simp
  from v0 v2 n7 nr a b c show ?thesis by simp
qed

text \<open>
  C10. \<^verbatim>\<open>LatestGeneration\<close> is \<open>2^64 - 1\<close>. \<^verbatim>\<open>LoadSuperblock\<close> called with it does
  what it does when called with the provider's current version \<open>v\<close> of the stream: nil
  when \<open>v\<close> is 0, otherwise the superblock of generation \<open>v\<close> decoded from the record
  stored for \<open>v\<close> (a panic when none is stored), so with the record of \<open>v\<close> stored the
  call returns the superblock of generation \<open>v\<close>. The record stored under the number
  \<open>2^64 - 1\<close> is not read unless \<open>v\<close> is that number: changing it changes nothing in the
  result. The generation numbered \<open>2^64 - 1\<close> itself cannot be asked for.
\<close>

theorem C10_latest_sentinel:
  "unat LatestGeneration = 2 ^ 64 - 1
   \<and> LoadSuperblock bs uid LatestGeneration
       = LoadSuperblock bs uid (GetStreamVersion (store bs) uid)
   \<and> LoadSuperblock bs uid LatestGeneration
       = (if GetStreamVersion (store bs) uid = 0 then Returns None
          else (case ReadSuperBlock (store bs) uid (GetStreamVersion (store bs) uid) of
                  None \<Rightarrow> Panics ''Your database is corrupt, superblock %d for stream %s should exist (but doesn't)''
                | Some sbarr \<Rightarrow>
                    map_outcome Some
                      (DeserializeSuperblock uid (GetStreamVersion (store bs) uid) sbarr)))
   \<and> (GetStreamVersion (store bs) uid \<noteq> 0 \<longrightarrow>
        ReadSuperBlock (store bs) uid (GetStreamVersion (store bs) uid)
          = Some (SBRecord uid (GetStreamVersion (store bs) uid) r) \<longrightarrow>
        LoadSuperblock bs uid LatestGeneration
          = Returns (Some \<lparr>uuid = uid, gen = GetStreamVersion (store bs) uid, root = r\<rparr>))
   \<and> (GetStreamVersion (store bs) uid \<noteq> LatestGeneration \<longrightarrow>
        LoadSuperblock
          (bs\<lparr>store := (store bs)\<lparr>superblocks :=
                              (superblocks (store bs))((uid, LatestGeneration) := x)\<rparr>\<rparr>)
          uid LatestGeneration
          = LoadSuperblock bs uid LatestGeneration)"
proof -
  let ?v = "GetStreamVersion (store bs) uid"
  have a: "unat LatestGeneration = 2 ^ 64 - 1"
    by (simp add: LatestGeneration_def unsigned_minus_1_eq_mask mask_eq_exp_minus_1)
  have b: "LoadSuperblock bs uid LatestGeneration = LoadSuperblock bs uid ?v"
    by (simp add: LoadSuperblock_unfold)
  have c: "LoadSuperblock bs uid LatestGeneration
       = (if ?v = 0 then Returns None
          else (case ReadSuperBlock (store bs) uid ?v of
                  None \<Rightarrow> Panics ''Your database is corrupt, superblock %d for stream %s should exist (but doesn't)''
                | Some sbarr \<Rightarrow> map_outcome Some (DeserializeSuperblock uid ?v sbarr)))"
    by (simp add: LoadSuperblock_unfold)
  have d: "?v \<noteq> 0 \<longrightarrow> ReadSuperBlock (store bs) uid ?v = Some (SBRecord uid ?v r) \<longrightarrow>
        LoadSuperblock bs uid LatestGeneration = Returns (Some \<lparr>uuid = uid, gen = ?v, root = r\<rparr>)"
    unfolding c by simp
  have e: "?v \<noteq> LatestGeneration \<longrightarrow>
        LoadSuperblock
          (bs\<lparr>store := (store bs)\<lparr>superblocks :=
                              (superblocks (store bs))((uid, LatestGeneration) := x)\<rparr>\<rparr>)
          uid LatestGeneration
          = LoadSuperblock bs uid LatestGeneration"
  proof
    let ?bs' = "bs\<lparr>store := (store bs)\<lparr>superblocks :=
                              (superblocks (store bs))((uid, LatestGeneration) := x)\<rparr>\<rparr>"
    assume nl: "?v \<noteq> LatestGeneration"
    let ?st' = "(store bs)\<lparr>superblocks := (superblocks (store bs))((uid, LatestGeneration) := x)\<rparr>"
    have g: "GetStreamVersion ?st' uid = ?v"
      by (simp add: GetStreamVersion_def)
    have r: "ReadSuperBlock ?st' uid ?v = ReadSuperBlock (store bs) uid ?v"
      using nl by (simp add: ReadSuperBlock_def GetStreamVersion_def)
    have "LoadSuperblock ?bs' uid LatestGeneration
       = (if ?v = 0 then Returns None
          else (case ReadSuperBlock (store bs) uid ?v of
                  None \<Rightarrow> Panics ''Your database is corrupt, superblock %d for stream %s should exist (but doesn't)''
                | Some sbarr \<Rightarrow> map_outcome Some (DeserializeSuperblock uid ?v sbarr)))"
      by (simp add: LoadSuperblock_unfold g r cong: option.case_cong)
    with c show "LoadSuperblock ?bs' uid LatestGeneration = LoadSuperblock bs uid LatestGeneration"
      by simp
  qed
  from a b c d e show ?thesis
    by (intro conjI)
qed

theorem C10_latest_sentinel_witness:
  "GetStreamVersion (store committed_store) stream1 = 2
   \<and> GetStreamVersion (store committed_store) stream1 \<noteq> 0
   \<and> GetStreamVersion (store committed_store) stream1 \<noteq> LatestGeneration
   \<and> ReadSuperBlock (store committed_store) stream1 2 = Some (SBRecord stream1 2 1)
   \<and> LoadSuperblock committed_store stream1 LatestGeneration
       = Returns (Some \<lparr>uuid = stream1, gen = 2, root = 1\<rparr>)
   \<and> LoadSuperblock
        (committed_store\<lparr>store := (store committed_store)\<lparr>superblocks :=
           (superblocks (store committed_store))
             ((stream1, LatestGeneration) := Some (SBRecord stream1 LatestGeneration 9))\<rparr>\<rparr>)
        stream1 LatestGeneration
       = Returns (Some \<lparr>uuid = stream1, gen = 2, root = 1\<rparr>)"
proof -
  have v: "GetStreamVersion (store committed_store) stream1 = 2"
    by (simp add: GetStreamVersion_def committed_store_def)
  have nz: "GetStreamVersion (store committed_store) stream1 \<noteq> 0"
    by (simp add: v)
  have nl: "GetStreamVersion (store committed_store) stream1 \<noteq> LatestGeneration"
    by (simp add: v LatestGeneration_def)
  have rd: "ReadSuperBlock (store committed_store) stream1 2 = Some (SBRecord stream1 2 1)"
    by (simp add: ReadSuperBlock_def committed_store_def)
  note t = C10_latest_sentinel
    [of committed_store stream1 1 "Some (SBRecord stream1 LatestGeneration 9)"]
  from t nz rd have l: "LoadSuperblock committed_store stream1 LatestGeneration
       = Returns (Some \<lparr>uuid = stream1, gen = 2, root = 1\<rparr>)"
    unfolding v by blast
  from t nl l have k: "LoadSuperblock
        (committed_store\<lparr>store := (store committed_store)\<lparr>superblocks :=
           (superblocks (store committed_store))
             ((stream1, LatestGeneration) := Some (SBRecord stream1 LatestGeneration 9))\<rparr>\<rparr>)
        stream1 LatestGeneration
       = Returns (Some \<lparr>uuid = stream1, gen = 2, root = 1\<rparr>)"
    by simp
  show ?thesis
    by (rule conjI [OF v conjI [OF nz conjI [OF nl conjI [OF rd conjI [OF l k]]]]])
qed

lemma cachePut_lookup:
  "cachemax bs \<noteq> 0 \<Longrightarrow> map_of (cache (cachePut bs a db)) a = Some db"
proof -
  assume "cachemax bs \<noteq> 0"
  then have pos: "0 < unat (cachemax bs)"
    by (simp add: unat_gt_0)
  let ?rest = "filter (\<lambda>e. fst e \<noteq> a) (cache bs)"
  show ?thesis
  proof (cases ?rest)
    case Nil
    with pos show ?thesis by (simp add: cachePut_def Let_def)
  next
    case (Cons e es)
    then show ?thesis by (simp add: cachePut_def Let_def)
  qed
qed

text \<open>
  C6. On a cache miss, \<^verbatim>\<open>ReadDatablock\<close> decodes the provider's bytes as a core block
  or as a vector block according to the type of the buffer; the block returned has the
  requested address as its \<open>Identifier\<close> and the caller's arguments as its \<open>Generation\<close>,
  \<open>PointWidth\<close> and \<open>StartTime\<close>, whatever the bytes hold; and the block store returned
  is the one after \<^verbatim>\<open>cachePut\<close> of that block, so that with a cache of capacity above 0
  the block is in the cache under its address.
\<close>

theorem C6_ReadDatablock_miss:
  assumes miss: "cacheGet bs addr = (None, bs1)"
  shows "(DatablockGetBufferType K (Read (store bs1) uid addr) = Core \<longrightarrow>
            ReadDatablock K bs uid addr g pw t =
              Returns (CoreDB \<lparr>Identifier = addr, Generation = g, PointWidth = pw, StartTime = t,
                                payload = payload (Deserialize zero_block (Read (store bs1) uid addr))\<rparr>,
                       cachePut bs1 addr
                         (CoreDB \<lparr>Identifier = addr, Generation = g, PointWidth = pw, StartTime = t,
                                   payload = payload (Deserialize zero_block (Read (store bs1) uid addr))\<rparr>)))
       \<and> (DatablockGetBufferType K (Read (store bs1) uid addr) = Vector \<longrightarrow>
            ReadDatablock K bs uid addr g pw t =
              Returns (VectorDB \<lparr>Identifier = addr, Generation = g, PointWidth = pw, StartTime = t,
                                  payload = payload (Deserialize zero_block (Read (store bs1) uid addr))\<rparr>,
                       cachePut bs1 addr
                         (VectorDB \<lparr>Identifier = addr, Generation = g, PointWidth = pw, StartTime = t,
                                     payload = payload (Deserialize zero_block (Read (store bs1) uid addr))\<rparr>)))
       \<and> (\<forall>db bs'. ReadDatablock K bs uid addr g pw t = Returns (db, bs') \<longrightarrow>
             bs' = cachePut bs1 addr db
             \<and> (cachemax bs \<noteq> 0 \<longrightarrow> map_of (cache bs') addr = Some db))"
proof -
  have cm: "cachemax bs1 = cachemax bs"
    using miss by (auto simp: cacheGet_def split: option.splits)
  have core: "DatablockGetBufferType K (Read (store bs1) uid addr) = Core \<longrightarrow>
            ReadDatablock K bs uid addr g pw t =
              Returns (CoreDB \<lparr>Identifier = addr, Generation = g, PointWidth = pw, StartTime = t,
                                payload = payload (Deserialize zero_block (Read (store bs1) uid addr))\<rparr>,
                       cachePut bs1 addr
                         (CoreDB \<lparr>Identifier = addr, Generation = g, PointWidth = pw, StartTime = t,
                                   payload = payload (Deserialize zero_block (Read (store bs1) uid addr))\<rparr>))"
    using miss by (simp add: ReadDatablock_def Let_def Deserialize_def zero_block_def)
  have vec: "DatablockGetBufferType K (Read (store bs1) uid addr) = Vector \<longrightarrow>
            ReadDatablock K bs uid addr g pw t =
              Returns (VectorDB \<lparr>Identifier = addr, Generation = g, PointWidth = pw, StartTime = t,
                                  payload = payload (Deserialize zero_block (Read (store bs1) uid addr))\<rparr>,
                       cachePut bs1 addr
                         (VectorDB \<lparr>Identifier = addr, Generation = g, PointWidth = pw, StartTime = t,
                                     payload = payload (Deserialize zero_block (Read (store bs1) uid addr))\<rparr>))"
    using miss by (simp add: ReadDatablock_def Let_def Deserialize_def zero_block_def)
  have put: "bs' = cachePut bs1 addr db" if "ReadDatablock K bs uid addr g pw t = Returns (db, bs')" for db bs'
    using that miss
    by (cases "DatablockGetBufferType K (Read (store bs1) uid addr)")
       (auto simp: ReadDatablock_def Let_def)
  have look: "map_of (cache bs') addr = Some db"
    if "ReadDatablock K bs uid addr g pw t = Returns (db, bs')" "cachemax bs \<noteq> 0" for db bs'
    using put [OF that(1)] that(2) cm cachePut_lookup [of bs1 addr db] by simp
  from core vec put look show ?thesis by blast
qed

text \<open>
  C7. On a cache miss, when the type of the fetched buffer is neither \<open>Core\<close> nor
  \<open>Vector\<close>, \<^verbatim>\<open>ReadDatablock\<close> panics with "Strange datablock type": it returns
  neither a block nor nil.
\<close>

theorem C7_ReadDatablock_strange_type:
  assumes miss: "cacheGet bs addr = (None, bs1)"
    and nc: "DatablockGetBufferType K (Read (store bs1) uid addr) \<noteq> Core"
    and nv: "DatablockGetBufferType K (Read (store bs1) uid addr) \<noteq> Vector"
  shows "ReadDatablock K bs uid addr g pw t = Panics ''Strange datablock type''"
  using assms
  by (cases "DatablockGetBufferType K (Read (store bs1) uid addr)")
     (simp_all add: ReadDatablock_def)

theorem C7_ReadDatablock_strange_type_witness:
  "cacheGet read_store 3 = (None, read_store\<lparr>cachemiss := 1\<rparr>)
   \<and> DatablockGetBufferType K0 (Read (store (read_store\<lparr>cachemiss := 1\<rparr>)) stream1 3) = Bad
   \<and> ReadDatablock K0 read_store stream1 3 2 0 0 = Panics ''Strange datablock type''"
proof -
  have m: "cacheGet read_store 3 = (None, read_store\<lparr>cachemiss := 1\<rparr>)"
    by (simp add: cacheGet_def read_store_def NewBlockStore_def)
  have b: "DatablockGetBufferType K0 (Read (store (read_store\<lparr>cachemiss := 1\<rparr>)) stream1 3) = Bad"
    by (simp add: DatablockGetBufferType_def Read_def read_store_def NewBlockStore_def
          block_provider_def empty_provider_def K0_def)
  from C7_ReadDatablock_strange_type [OF m, of K0 stream1 2 0 0] b m show ?thesis by simp
qed

theorem C6_ReadDatablock_miss_witness:
  "cacheGet read_store 1 = (None, read_store\<lparr>cachemiss := 1\<rparr>)
   \<and> DatablockGetBufferType K0 (Read (store (read_store\<lparr>cachemiss := 1\<rparr>)) stream1 1) = Vector
   \<and> map_outcome fst (ReadDatablock K0 read_store stream1 1 2 3 4)
       = Returns (VectorDB \<lparr>Identifier = 1, Generation = 2, PointWidth = 3, StartTime = 4,
                            payload = [7, 7]\<rparr>)
   \<and> cachemax read_store \<noteq> 0
   \<and> map_outcome (\<lambda>r. map_of (cache (snd r)) 1) (ReadDatablock K0 read_store stream1 1 2 3 4)
       = Returns (Some (VectorDB \<lparr>Identifier = 1, Generation = 2, PointWidth = 3, StartTime = 4,
                            payload = [7, 7]\<rparr>))"
proof -
  let ?bs1 = "read_store\<lparr>cachemiss := 1\<rparr>"
  let ?db = "VectorDB \<lparr>Identifier = 1, Generation = 2, PointWidth = 3, StartTime = 4,
                            payload = [7, 7]\<rparr>"
  have m: "cacheGet read_store 1 = (None, ?bs1)"
    by (simp add: cacheGet_def read_store_def NewBlockStore_def)
  have b: "Read (store ?bs1) stream1 1 = [1, 7, 7]"
    by (simp add: Read_def read_store_def NewBlockStore_def
          block_provider_def empty_provider_def)
  have v: "DatablockGetBufferType K0 (Read (store ?bs1) stream1 1) = Vector"
    unfolding b by (simp add: DatablockGetBufferType_def K0_def)
  have c: "cachemax read_store \<noteq> 0"
    by (simp add: read_store_def NewBlockStore_def)
  have p: "payload (Deserialize zero_block (Read (store ?bs1) stream1 1)) = [7, 7]"
    unfolding b by (simp add: Deserialize_def)
  note t = C6_ReadDatablock_miss [OF m, of K0 stream1 2 3 4]
  from t v have r: "ReadDatablock K0 read_store stream1 1 2 3 4 = Returns (?db, cachePut ?bs1 1 ?db)"
    unfolding p by blast
  from t r c have l: "map_of (cache (cachePut ?bs1 1 ?db)) 1 = Some ?db"
    by blast
  show ?thesis
    unfolding r using m v c l by simp
qed

section \<open>Committing a generation\<close>

text \<open>The sample generation is what the calls of a writer produce on an empty database.\<close>

lemma open_reachable:
  "map_outcome (fold (perform K0) [DoAllocateVectorblock, DoUpdateRootAddr 0xFF00000000000000])
     (ObtainGeneration (NewBlockStore K0 4 empty_provider) stream1) = Returns (open_gen, open_store)"
  by (simp add: ObtainGeneration_def NewBlockStore_def K0_def empty_provider_def stream1_def
        UUIDToMapKey_def GetStreamVersion_def NewSuperblock_def CloneInc_def
        AllocateVectorblock_def allocateBlock_def next_relocation_addr_def zero_block_def
        Number_def UpdateRootAddr_def open_gen_def open_store_def Let_def)

lemma replay_append: "replay (xs @ ys) st = replay ys (replay xs st)"
  by (simp add: replay_def)

lemma oplog_exec_op: "oplog (exec_op x st) = oplog st @ [x]"
  by (cases x) simp_all

lemma oplog_replay: "oplog (replay ops st) = oplog st @ ops"
  by (induction ops arbitrary: st) (simp_all add: replay_def oplog_exec_op)

lemma exec_block_write:
  "is_block_write w \<Longrightarrow>
     versions (exec_op w st) = versions st \<and> superblocks (exec_op w st) = superblocks st"
  by (cases w) simp_all

lemma replay_block_writes:
  "\<forall>w \<in> set ws. is_block_write w \<Longrightarrow>
     versions (replay ws st) = versions st \<and> superblocks (replay ws st) = superblocks st"
proof (induction ws arbitrary: st)
  case Nil
  then show ?case by (simp add: replay_def)
next
  case (Cons w ws)
  have "replay (w # ws) st = replay ws (exec_op w st)"
    by (simp add: replay_def)
  with Cons.IH [of "exec_op w st"] Cons.prems exec_block_write [of w st] show ?case
    by simp
qed

lemma store_blocks_replay:
  "\<exists>ws. snd (store_blocks uid ser blks (m, st)) = replay ws st \<and> (\<forall>w \<in> set ws. is_block_write w)"
proof (induction blks arbitrary: m st)
  case Nil
  have "snd (store_blocks uid ser [] (m, st)) = replay [] st"
    by (simp add: replay_def)
  then show ?case by fastforce
next
  case (Cons b blks)
  let ?w = "OpWriteBlock uid (free_addr st) (ser b)"
  obtain ws where ws: "snd (store_blocks uid ser blks (m(Identifier b \<mapsto> free_addr st), exec_op ?w st))
                         = replay ws (exec_op ?w st)"
    and bw: "\<forall>w \<in> set ws. is_block_write w"
    using Cons.IH by blast
  have "snd (store_blocks uid ser (b # blks) (m, st)) = replay (?w # ws) st"
    using ws by (simp add: WriteBlock_def replay_def)
  moreover have "\<forall>w \<in> set (?w # ws). is_block_write w"
    using bw by simp
  ultimately show ?case by blast
qed

lemma LinkAndStore_replay:
  "\<exists>ws. snd (LinkAndStore K uid bs vbs cbs) = bs\<lparr>store := replay ws (store bs)\<rparr>
        \<and> (\<forall>w \<in> set ws. is_block_write w)"
proof -
  obtain m1 st1 where v: "store_blocks uid (SerializeVector K) vbs (Map.empty, store bs) = (m1, st1)"
    by (cases "store_blocks uid (SerializeVector K) vbs (Map.empty, store bs)")
  obtain m2 st2 where c: "store_blocks uid (SerializeCore K) cbs (m1, st1) = (m2, st2)"
    by (cases "store_blocks uid (SerializeCore K) cbs (m1, st1)")
  obtain ws1 where w1: "st1 = replay ws1 (store bs)" and b1: "\<forall>w \<in> set ws1. is_block_write w"
    using store_blocks_replay [of uid "SerializeVector K" vbs Map.empty "store bs"] v by auto
  obtain ws2 where w2: "st2 = replay ws2 st1" and b2: "\<forall>w \<in> set ws2. is_block_write w"
    using store_blocks_replay [of uid "SerializeCore K" cbs m1 st1] c by auto
  have "snd (LinkAndStore K uid bs vbs cbs) = bs\<lparr>store := replay (ws1 @ ws2) (store bs)\<rparr>"
    using v c w1 w2 by (simp add: LinkAndStore_def replay_append)
  moreover have "\<forall>w \<in> set (ws1 @ ws2). is_block_write w"
    using b1 b2 by auto
  ultimately show ?thesis by blast
qed

lemma Commit_flushed: "flushed g \<Longrightarrow> Commit K g bs = Returns (Inl AlreadyFlushed, g, bs)"
  by (simp add: Commit_def)

lemma Commit_unflushed:
  assumes nf: "\<not> flushed g"
    and las: "LinkAndStore K (Uuid g) bs (vblocks g) (cblocks g) = (address_map, bs1)"
  shows "Commit K g bs =
     (case address_map (root (New_SB g)) of
        None \<Rightarrow> Panics ''Could not obtain root address''
      | Some rootaddr \<Rightarrow>
          (case wlocks bs1 (UUIDToMapKey (Uuid g)) of
             None \<Rightarrow> Panics ''invalid memory address or nil pointer dereference''
           | Some locked \<Rightarrow>
               if locked
               then Returns (Inr address_map,
                      g\<lparr>New_SB := (New_SB g)\<lparr>root := rootaddr\<rparr>, vblocks := [], cblocks := [],
                        flushed := True\<rparr>,
                      bs1\<lparr>store := replay [OpWriteSuperBlock (uuid (New_SB g)) (gen (New_SB g))
                                              (Serialize ((New_SB g)\<lparr>root := rootaddr\<rparr>)),
                                            OpSetStreamVersion (uuid (New_SB g)) (gen (New_SB g))]
                                       (store bs1),
                          wlocks := (wlocks bs1)(UUIDToMapKey (Uuid g) \<mapsto> False)\<rparr>)
               else Panics ''sync: unlock of unlocked mutex''))"
  using nf las
  by (simp add: Commit_def Let_def Uuid_def WriteSuperBlock_def SetStreamVersion_def replay_def
        split: option.splits)

lemma Commit_success:
  assumes ok: "Commit K g bs = Returns (Inr m, g', bs')"
  shows "\<exists>ws r. \<not> flushed g
           \<and> (\<forall>w \<in> set ws. is_block_write w)
           \<and> fst (LinkAndStore K (Uuid g) bs (vblocks g) (cblocks g)) = m
           \<and> m (root (New_SB g)) = Some r
           \<and> wlocks bs (UUIDToMapKey (Uuid g)) = Some True
           \<and> g' = g\<lparr>New_SB := (New_SB g)\<lparr>root := r\<rparr>, vblocks := [], cblocks := [], flushed := True\<rparr>
           \<and> store bs' = replay (ws @ [OpWriteSuperBlock (uuid (New_SB g)) (gen (New_SB g))
                                          (Serialize ((New_SB g)\<lparr>root := r\<rparr>)),
                                        OpSetStreamVersion (uuid (New_SB g)) (gen (New_SB g))])
                            (store bs)"
proof -
  have nf: "\<not> flushed g"
    using ok by (auto simp: Commit_def)
  obtain am bs1 where las: "LinkAndStore K (Uuid g) bs (vblocks g) (cblocks g) = (am, bs1)"
    by (cases "LinkAndStore K (Uuid g) bs (vblocks g) (cblocks g)")
  obtain ws where ws: "bs1 = bs\<lparr>store := replay ws (store bs)\<rparr>"
    and bw: "\<forall>w \<in> set ws. is_block_write w"
    using LinkAndStore_replay [of K "Uuid g" bs "vblocks g" "cblocks g"] las by auto
  note c = Commit_unflushed [OF nf las]
  from ok c obtain r where r: "am (root (New_SB g)) = Some r"
    by (cases "am (root (New_SB g))") auto
  from ok c r have lk: "wlocks bs1 (UUIDToMapKey (Uuid g)) = Some True"
    by (cases "wlocks bs1 (UUIDToMapKey (Uuid g))") (auto split: if_splits)
  from ok c r lk have res: "m = am"
    "g' = g\<lparr>New_SB := (New_SB g)\<lparr>root := r\<rparr>, vblocks := [], cblocks := [], flushed := True\<rparr>"
    "store bs' = replay [OpWriteSuperBlock (uuid (New_SB g)) (gen (New_SB g))
                                          (Serialize ((New_SB g)\<lparr>root := r\<rparr>)),
                                        OpSetStreamVersion (uuid (New_SB g)) (gen (New_SB g))]
                            (store bs1)"
    by auto
  have "store bs' = replay (ws @ [OpWriteSuperBlock (uuid (New_SB g)) (gen (New_SB g))
                                          (Serialize ((New_SB g)\<lparr>root := r\<rparr>)),
                                        OpSetStreamVersion (uuid (New_SB g)) (gen (New_SB g))])
                            (store bs)"
    using res(3) ws by (simp add: replay_append)
  moreover have "wlocks bs (UUIDToMapKey (Uuid g)) = Some True"
    using lk ws by simp
  ultimately show ?thesis
    using nf bw las r res(1,2) by auto
qed


lemma Commit_returns:
  assumes nf: "\<not> flushed g"
    and r: "fst (LinkAndStore K (Uuid g) bs (vblocks g) (cblocks g)) (root (New_SB g)) = Some r"
    and lk: "wlocks bs (UUIDToMapKey (Uuid g)) = Some True"
  shows "\<exists>m g' bs'. Commit K g bs = Returns (Inr m, g', bs')"
proof -
  obtain am bs1 where las: "LinkAndStore K (Uuid g) bs (vblocks g) (cblocks g) = (am, bs1)"
    by (cases "LinkAndStore K (Uuid g) bs (vblocks g) (cblocks g)")
  have "wlocks bs1 = wlocks bs"
    using LinkAndStore_replay [of K "Uuid g" bs "vblocks g" "cblocks g"] las by auto
  with Commit_unflushed [OF nf las] r lk las show ?thesis
    by simp
qed

lemma open_LinkAndStore:
  "fst (LinkAndStore K0 (Uuid open_gen) open_store (vblocks open_gen) (cblocks open_gen))
     (root (New_SB open_gen)) = Some 1"
  by (simp add: LinkAndStore_def WriteBlock_def open_gen_def open_store_def empty_provider_def
        split: prod.splits)

lemma open_commit_returns:
  "\<exists>m g' bs'. Commit K0 open_gen open_store = Returns (Inr m, g', bs')"
proof (rule Commit_returns)
  show "\<not> flushed open_gen"
    by (simp add: open_gen_def)
  show "fst (LinkAndStore K0 (Uuid open_gen) open_store (vblocks open_gen) (cblocks open_gen))
          (root (New_SB open_gen)) = Some 1"
    by (rule open_LinkAndStore)
  show "wlocks open_store (UUIDToMapKey (Uuid open_gen)) = Some True"
    by (simp add: open_store_def open_gen_def Uuid_def UUIDToMapKey_def stream1_def)
qed

text \<open>The committed block store is what \<^verbatim>\<open>Commit\<close> of the sample generation returns.\<close>

lemma committed_reachable:
  "map_outcome (snd \<circ> snd) (Commit K0 open_gen open_store) = Returns committed_store"
  by (simp add: Commit_def Let_def LinkAndStore_def WriteBlock_def WriteSuperBlock_def
        SetStreamVersion_def Serialize_def SerializeVector_def Uuid_def UUIDToMapKey_def
        open_gen_def open_store_def committed_store_def empty_provider_def K0_def stream1_def)

lemma take_two_more:
  "k \<le> length ws + 2 \<Longrightarrow>
     (k \<le> length ws \<and> take k (ws @ [a, b]) = take k ws)
     \<or> take k (ws @ [a, b]) = ws @ [a]
     \<or> take k (ws @ [a, b]) = ws @ [a, b]"
proof -
  assume k: "k \<le> length ws + 2"
  consider "k \<le> length ws" | "k = length ws + 1" | "k = length ws + 2"
    using k by linarith
  then show ?thesis
  proof cases
    case 1
    then show ?thesis by simp
  next
    case 2
    then show ?thesis by simp
  next
    case 3
    then show ?thesis by simp
  qed
qed

text \<open>
  C2. After a \<^verbatim>\<open>Commit\<close> that returned the address map, the generation is flushed, and
  \<^verbatim>\<open>Commit\<close> on it returns the error "Already Flushed" with the generation and the
  block store as they were: the provider with its blocks, superblocks, version index
  and log of calls is unchanged, whatever block store the call is made on.
\<close>

theorem C2_second_Commit_AlreadyFlushed:
  assumes ok: "Commit K g bs = Returns (Inr m, g', bs')"
  shows "flushed g'
         \<and> Commit K g' bs' = Returns (Inl AlreadyFlushed, g', bs')
         \<and> Commit K g' bs2 = Returns (Inl AlreadyFlushed, g', bs2)"
proof -
  from Commit_success [OF ok] have "flushed g'"
    by auto
  then show ?thesis
    by (simp add: Commit_flushed)
qed

text \<open>
  C4. For a generation that is not flushed, with \<open>address_map\<close> the map that
  \<^verbatim>\<open>LinkAndStore\<close> returns: when \<^verbatim>\<open>New_SB.root\<close> is not a key of the map, \<^verbatim>\<open>Commit\<close>
  panics with "Could not obtain root address" (it returns no error value); when the map
  sends it to \<open>r\<close>, every return of \<^verbatim>\<open>Commit\<close> gives the address map, a generation
  whose \<^verbatim>\<open>New_SB.root\<close> is \<open>r\<close> and a provider whose last two calls wrote the superblock
  with root \<open>r\<close> and set the version; and \<^verbatim>\<open>Commit\<close> does return when the stream's
  mutex is held.
\<close>

theorem C4_Commit_root_resolution:
  assumes nf: "\<not> flushed g"
    and las: "LinkAndStore K (Uuid g) bs (vblocks g) (cblocks g) = (address_map, bs1)"
  shows "(address_map (root (New_SB g)) = None \<longrightarrow>
            Commit K g bs = Panics ''Could not obtain root address'')
       \<and> (\<forall>r. address_map (root (New_SB g)) = Some r \<longrightarrow>
            (\<forall>res g' bs'. Commit K g bs = Returns (res, g', bs') \<longrightarrow>
               res = Inr address_map
               \<and> root (New_SB g') = r
               \<and> oplog (store bs') = oplog (store bs1) @
                     [OpWriteSuperBlock (uuid (New_SB g)) (gen (New_SB g))
                        (Serialize ((New_SB g)\<lparr>root := r\<rparr>)),
                      OpSetStreamVersion (uuid (New_SB g)) (gen (New_SB g))]
               \<and> ReadSuperBlock (store bs') (uuid (New_SB g)) (gen (New_SB g))
                     = Some (Serialize ((New_SB g)\<lparr>root := r\<rparr>)))
            \<and> (wlocks bs (UUIDToMapKey (Uuid g)) = Some True \<longrightarrow>
                 (\<exists>g' bs'. Commit K g bs = Returns (Inr address_map, g', bs'))))"
proof -
  note c = Commit_unflushed [OF nf las]
  have wl: "wlocks bs1 = wlocks bs"
    using LinkAndStore_replay [of K "Uuid g" bs "vblocks g" "cblocks g"] las by auto
  have none: "address_map (root (New_SB g)) = None \<longrightarrow>
            Commit K g bs = Panics ''Could not obtain root address''"
    using c by simp
  have some: "res = Inr address_map
               \<and> root (New_SB g') = r
               \<and> oplog (store bs') = oplog (store bs1) @
                     [OpWriteSuperBlock (uuid (New_SB g)) (gen (New_SB g))
                        (Serialize ((New_SB g)\<lparr>root := r\<rparr>)),
                      OpSetStreamVersion (uuid (New_SB g)) (gen (New_SB g))]
               \<and> ReadSuperBlock (store bs') (uuid (New_SB g)) (gen (New_SB g))
                     = Some (Serialize ((New_SB g)\<lparr>root := r\<rparr>))"
    if r: "address_map (root (New_SB g)) = Some r"
      and ret: "Commit K g bs = Returns (res, g', bs')" for r res g' bs'
  proof -
    from ret c r have lk: "wlocks bs1 (UUIDToMapKey (Uuid g)) = Some True"
      by (cases "wlocks bs1 (UUIDToMapKey (Uuid g))") (auto split: if_splits)
    from ret c r lk have res: "res = Inr address_map"
      "g' = g\<lparr>New_SB := (New_SB g)\<lparr>root := r\<rparr>, vblocks := [], cblocks := [], flushed := True\<rparr>"
      "store bs' = replay [OpWriteSuperBlock (uuid (New_SB g)) (gen (New_SB g))
                                          (Serialize ((New_SB g)\<lparr>root := r\<rparr>)),
                                        OpSetStreamVersion (uuid (New_SB g)) (gen (New_SB g))]
                            (store bs1)"
      by auto
    have "ReadSuperBlock (store bs') (uuid (New_SB g)) (gen (New_SB g))
                     = Some (Serialize ((New_SB g)\<lparr>root := r\<rparr>))"
      unfolding res(3) by (simp add: replay_def ReadSuperBlock_def)
    with res show ?thesis
      by (simp add: oplog_replay)
  qed
  have ex: "\<exists>g' bs'. Commit K g bs = Returns (Inr address_map, g', bs')"
    if "address_map (root (New_SB g)) = Some r" "wlocks bs (UUIDToMapKey (Uuid g)) = Some True" for r
    using that c wl by simp
  from none some ex show ?thesis by blast
qed

text \<open>
  C3. A \<^verbatim>\<open>Commit\<close> that returns the address map calls the provider in this order: the
  block writes, then \<^verbatim>\<open>WriteSuperBlock\<close> of the new superblock, then
  \<^verbatim>\<open>SetStreamVersion\<close> to the new generation number. In every state of the provider
  along these calls the version of the stream is the old one, or it is the new one and
  the new superblock is stored; and if the version named a stored superblock (or was 0)
  before, it does so in every such state.
\<close>

theorem C3_superblock_written_before_version:
  assumes ok: "Commit K g bs = Returns (Inr m, g', bs')"
  shows "\<exists>ws. (\<forall>w \<in> set ws. is_block_write w)
           \<and> oplog (store bs') = oplog (store bs) @ ws @
                 [OpWriteSuperBlock (uuid (New_SB g')) (gen (New_SB g')) (Serialize (New_SB g')),
                  OpSetStreamVersion (uuid (New_SB g')) (gen (New_SB g'))]
           \<and> store bs' = replay (ws @
                 [OpWriteSuperBlock (uuid (New_SB g')) (gen (New_SB g')) (Serialize (New_SB g')),
                  OpSetStreamVersion (uuid (New_SB g')) (gen (New_SB g'))]) (store bs)
           \<and> GetStreamVersion (store bs') (uuid (New_SB g')) = gen (New_SB g')
           \<and> (\<forall>k \<le> length ws + 2.
                 (GetStreamVersion (replay (take k (ws @
                     [OpWriteSuperBlock (uuid (New_SB g')) (gen (New_SB g')) (Serialize (New_SB g')),
                      OpSetStreamVersion (uuid (New_SB g')) (gen (New_SB g'))])) (store bs))
                    (uuid (New_SB g')) = GetStreamVersion (store bs) (uuid (New_SB g'))
                  \<or> GetStreamVersion (replay (take k (ws @
                     [OpWriteSuperBlock (uuid (New_SB g')) (gen (New_SB g')) (Serialize (New_SB g')),
                      OpSetStreamVersion (uuid (New_SB g'))  (gen (New_SB g'))])) (store bs))
                    (uuid (New_SB g')) = gen (New_SB g')
                    \<and> ReadSuperBlock (replay (take k (ws @
                     [OpWriteSuperBlock (uuid (New_SB g')) (gen (New_SB g')) (Serialize (New_SB g')),
                      OpSetStreamVersion (uuid (New_SB g')) (gen (New_SB g'))])) (store bs))
                    (uuid (New_SB g')) (gen (New_SB g')) = Some (Serialize (New_SB g')))
                 \<and> (latest_written (store bs) (uuid (New_SB g')) \<longrightarrow>
                      latest_written (replay (take k (ws @
                     [OpWriteSuperBlock (uuid (New_SB g')) (gen (New_SB g')) (Serialize (New_SB g')),
                      OpSetStreamVersion (uuid (New_SB g')) (gen (New_SB g'))])) (store bs))
                        (uuid (New_SB g'))))"
proof -
  from Commit_success [OF ok] obtain ws r where
    bw: "\<forall>w \<in> set ws. is_block_write w"
    and g': "g' = g\<lparr>New_SB := (New_SB g)\<lparr>root := r\<rparr>, vblocks := [], cblocks := [], flushed := True\<rparr>"
    and st: "store bs' = replay (ws @ [OpWriteSuperBlock (uuid (New_SB g)) (gen (New_SB g))
                                          (Serialize ((New_SB g)\<lparr>root := r\<rparr>)),
                                        OpSetStreamVersion (uuid (New_SB g)) (gen (New_SB g))])
                            (store bs)"
    by blast
  let ?u = "uuid (New_SB g')" and ?n = "gen (New_SB g')"
  let ?a = "OpWriteSuperBlock ?u ?n (Serialize (New_SB g'))"
  let ?b = "OpSetStreamVersion ?u ?n"
  let ?st = "store bs"
  have st': "store bs' = replay (ws @ [?a, ?b]) ?st"
    using st g' by simp
  have lg: "oplog (store bs') = oplog ?st @ ws @ [?a, ?b]"
    unfolding st' by (simp add: oplog_replay)
  have ver: "GetStreamVersion (store bs') ?u = ?n"
    unfolding st' by (simp add: replay_append) (simp add: replay_def GetStreamVersion_def)
  have pre: "(GetStreamVersion (replay (take k (ws @ [?a, ?b])) ?st) ?u = GetStreamVersion ?st ?u
              \<or> GetStreamVersion (replay (take k (ws @ [?a, ?b])) ?st) ?u = ?n
                \<and> ReadSuperBlock (replay (take k (ws @ [?a, ?b])) ?st) ?u ?n
                    = Some (Serialize (New_SB g')))
             \<and> (latest_written ?st ?u \<longrightarrow> latest_written (replay (take k (ws @ [?a, ?b])) ?st) ?u)"
    if k: "k \<le> length ws + 2" for k
  proof -
    have keep: "versions (replay xs ?st) = versions ?st \<and> superblocks (replay xs ?st) = superblocks ?st"
      if "set xs \<subseteq> set ws" for xs
      using that bw by (intro replay_block_writes) auto
    from take_two_more [OF k, of ?a ?b]
    consider (blocks) "k \<le> length ws" "take k (ws @ [?a, ?b]) = take k ws"
      | (written) "take k (ws @ [?a, ?b]) = ws @ [?a]"
      | (published) "take k (ws @ [?a, ?b]) = ws @ [?a, ?b]"
      by blast
    then show ?thesis
    proof cases
      case blocks
      have "set (take k ws) \<subseteq> set ws"
        by (rule set_take_subset)
      from keep [OF this] show ?thesis
        unfolding blocks(2) by (simp add: GetStreamVersion_def ReadSuperBlock_def latest_written_def)
    next
      case written
      have "versions (replay (ws @ [?a]) ?st) = versions ?st"
        and "superblocks (replay (ws @ [?a]) ?st) = (superblocks ?st)((?u, ?n) \<mapsto> Serialize (New_SB g'))"
        using keep [of ws] by (simp_all add: replay_append) (simp_all add: replay_def)
      then show ?thesis
        unfolding written by (simp add: GetStreamVersion_def ReadSuperBlock_def latest_written_def)
    next
      case published
      have "versions (replay (ws @ [?a, ?b]) ?st) = (versions ?st)(?u := ?n)"
        and "superblocks (replay (ws @ [?a, ?b]) ?st) = (superblocks ?st)((?u, ?n) \<mapsto> Serialize (New_SB g'))"
        using keep [of ws] by (simp_all add: replay_append) (simp_all add: replay_def)
      then show ?thesis
        unfolding published by (simp add: GetStreamVersion_def ReadSuperBlock_def latest_written_def)
    qed
  qed
  from bw lg st' ver pre show ?thesis
    by blast
qed

theorem C2_second_Commit_AlreadyFlushed_witness:
  "\<exists>m g' bs'. Commit K0 open_gen open_store = Returns (Inr m, g', bs')
      \<and> flushed g'
      \<and> Commit K0 g' bs' = Returns (Inl AlreadyFlushed, g', bs')"
proof -
  from open_commit_returns obtain m g' bs' where
    h: "Commit K0 open_gen open_store = Returns (Inr m, g', bs')"
    by blast
  from C2_second_Commit_AlreadyFlushed [OF h, of bs'] h show ?thesis
    by blast
qed

theorem C3_superblock_written_before_version_witness:
  "\<exists>m g' bs'. Commit K0 open_gen open_store = Returns (Inr m, g', bs')
      \<and> GetStreamVersion (store bs') (uuid (New_SB g')) = gen (New_SB g')
      \<and> (\<exists>ws. oplog (store bs') = oplog (store open_store) @ ws @
                 [OpWriteSuperBlock (uuid (New_SB g')) (gen (New_SB g')) (Serialize (New_SB g')),
                  OpSetStreamVersion (uuid (New_SB g')) (gen (New_SB g'))])"
proof -
  from open_commit_returns obtain m g' bs' where
    h: "Commit K0 open_gen open_store = Returns (Inr m, g', bs')"
    by blast
  from C3_superblock_written_before_version [OF h] h show ?thesis
    by blast
qed

lemma panic_LinkAndStore:
  "fst (LinkAndStore K0 (Uuid (UpdateRootAddr open_gen 5)) open_store
          (vblocks (UpdateRootAddr open_gen 5)) (cblocks (UpdateRootAddr open_gen 5)))
     (root (New_SB (UpdateRootAddr open_gen 5))) = None"
  by (simp add: LinkAndStore_def WriteBlock_def open_gen_def open_store_def empty_provider_def
        UpdateRootAddr_def split: prod.splits)

theorem C4_Commit_root_resolution_witness:
  "\<not> flushed open_gen
   \<and> fst (LinkAndStore K0 (Uuid open_gen) open_store (vblocks open_gen) (cblocks open_gen))
        (root (New_SB open_gen)) = Some 1
   \<and> wlocks open_store (UUIDToMapKey (Uuid open_gen)) = Some True
   \<and> (\<exists>g' bs'. Commit K0 open_gen open_store
          = Returns (Inr (fst (LinkAndStore K0 (Uuid open_gen) open_store (vblocks open_gen)
                                  (cblocks open_gen))), g', bs')
        \<and> root (New_SB g') = 1)
   \<and> Commit K0 (UpdateRootAddr open_gen 5) open_store = Panics ''Could not obtain root address''"
proof -
  let ?L = "LinkAndStore K0 (Uuid open_gen) open_store (vblocks open_gen) (cblocks open_gen)"
  let ?g5 = "UpdateRootAddr open_gen 5"
  let ?L5 = "LinkAndStore K0 (Uuid ?g5) open_store (vblocks ?g5) (cblocks ?g5)"
  have nf: "\<not> flushed open_gen"
    by (simp add: open_gen_def)
  have nf5: "\<not> flushed ?g5"
    by (simp add: open_gen_def UpdateRootAddr_def)
  have las: "?L = (fst ?L, snd ?L)"
    by simp
  have las5: "?L5 = (fst ?L5, snd ?L5)"
    by simp
  have lk: "wlocks open_store (UUIDToMapKey (Uuid open_gen)) = Some True"
    by (simp add: open_store_def open_gen_def Uuid_def UUIDToMapKey_def stream1_def)
  note t = C4_Commit_root_resolution [OF nf las]
  from t open_LinkAndStore lk obtain g' bs' where
    c: "Commit K0 open_gen open_store = Returns (Inr (fst ?L), g', bs')"
    by blast
  from t open_LinkAndStore c have r: "root (New_SB g') = 1"
    by blast
  from c r have e: "\<exists>g' bs'. Commit K0 open_gen open_store = Returns (Inr (fst ?L), g', bs')
        \<and> root (New_SB g') = 1"
    by blast
  from C4_Commit_root_resolution [OF nf5 las5] panic_LinkAndStore
  have p: "Commit K0 ?g5 open_store = Panics ''Could not obtain root address''"
    by blast
  show ?thesis
    by (rule conjI [OF nf conjI [OF open_LinkAndStore conjI [OF lk conjI [OF e p]]]])
qed

section \<open>Generation numbers\<close>

lemma ObtainGeneration_Returns:
  assumes ob: "ObtainGeneration bs uid = Returns (g, bs1)"
  shows "uuid (New_SB g) = uid
         \<and> gen (New_SB g) = (if GetStreamVersion (store bs) uid = 0 then 2
                              else GetStreamVersion (store bs) uid + 1)
         \<and> gen (Cur_SB g) = (if GetStreamVersion (store bs) uid = 0 then 1
                              else GetStreamVersion (store bs) uid)
         \<and> \<not> flushed g \<and> store bs1 = store bs"
proof (cases "GetStreamVersion (store bs) uid = 0")
  case True
  with ob show ?thesis
    by (auto simp: ObtainGeneration_def Let_def NewSuperblock_def CloneInc_def split: if_splits)
next
  case False
  let ?v = "GetStreamVersion (store bs) uid"
  show ?thesis
  proof (cases "ReadSuperBlock (store bs) uid ?v")
    case None
    with ob False show ?thesis
      by (auto simp: ObtainGeneration_def Let_def split: if_splits)
  next
    case (Some sbarr)
    from DeserializeSuperblock_cases [of uid ?v sbarr] ob False Some show ?thesis
      by (auto simp: ObtainGeneration_def Let_def CloneInc_def split: if_splits)
  qed
qed

lemma ObtainGeneration_fresh_returns:
  assumes v: "GetStreamVersion (store bs) uid = 0"
    and lk: "wlocks bs (UUIDToMapKey uid) \<noteq> Some True"
  shows "\<exists>g bs1. ObtainGeneration bs uid = Returns (g, bs1)"
  using v lk by (simp add: ObtainGeneration_def Let_def)

lemma perform_keeps:
  "perform K a (g, bs) = (g1, bs1) \<Longrightarrow>
     uuid (New_SB g1) = uuid (New_SB g) \<and> gen (New_SB g1) = gen (New_SB g)
     \<and> flushed g1 = flushed g \<and> store bs1 = store bs"
  by (cases a)
     (auto simp: AllocateCoreblock_def AllocateVectorblock_def allocateBlock_def
        UpdateRootAddr_def Let_def split: prod.splits)

lemma fold_perform_keeps:
  "fold (perform K) acts (g, bs) = (g1, bs1) \<Longrightarrow>
     uuid (New_SB g1) = uuid (New_SB g) \<and> gen (New_SB g1) = gen (New_SB g)
     \<and> flushed g1 = flushed g \<and> store bs1 = store bs"
proof (induction acts arbitrary: g bs)
  case Nil
  then show ?case by simp
next
  case (Cons a acts)
  obtain g2 bs2 where p: "perform K a (g, bs) = (g2, bs2)"
    by (cases "perform K a (g, bs)")
  with Cons.prems have "fold (perform K) acts (g2, bs2) = (g1, bs1)"
    by simp
  from Cons.IH [OF this] perform_keeps [OF p] show ?case
    by simp
qed

lemma Commit_publishes:
  assumes ok: "Commit K g bs = Returns (Inr m, g', bs')"
  shows "Number g' = gen (New_SB g)
         \<and> GetStreamVersion (store bs') (uuid (New_SB g)) = gen (New_SB g)"
proof -
  from Commit_success [OF ok] obtain ws r where
    g': "g' = g\<lparr>New_SB := (New_SB g)\<lparr>root := r\<rparr>, vblocks := [], cblocks := [], flushed := True\<rparr>"
    and st: "store bs' = replay (ws @ [OpWriteSuperBlock (uuid (New_SB g)) (gen (New_SB g))
                                          (Serialize ((New_SB g)\<lparr>root := r\<rparr>)),
                                        OpSetStreamVersion (uuid (New_SB g)) (gen (New_SB g))])
                            (store bs)"
    by blast
  have "GetStreamVersion (store bs') (uuid (New_SB g)) = gen (New_SB g)"
    unfolding st by (simp add: replay_append) (simp add: replay_def GetStreamVersion_def)
  with g' show ?thesis
    by (simp add: Number_def)
qed

lemma write_pass_Some:
  assumes wp: "write_pass K uid acts bs = Some (n, bs')"
  shows "n = (if GetStreamVersion (store bs) uid = 0 then 2
              else GetStreamVersion (store bs) uid + 1)
         \<and> GetStreamVersion (store bs') uid = n"
proof -
  from wp obtain g bs1 where ob: "ObtainGeneration bs uid = Returns (g, bs1)"
    by (cases "ObtainGeneration bs uid") (auto simp: write_pass_def)
  obtain g1 bs2 where f: "fold (perform K) acts (g, bs1) = (g1, bs2)"
    by (cases "fold (perform K) acts (g, bs1)")
  from wp ob f obtain m g2 where c: "Commit K g1 bs2 = Returns (Inr m, g2, bs')"
    and n: "n = Number g2"
    by (auto simp: write_pass_def split: outcome.splits sum.splits)
  from ObtainGeneration_Returns [OF ob] fold_perform_keeps [OF f] Commit_publishes [OF c] n
  show ?thesis
    by simp
qed

lemma upt_head: "[a ..< a + Suc k] = a # [Suc a ..< Suc a + k]"
  by (subst upt_rec) simp

lemma write_passes_from:
  "GetStreamVersion (store bs) uid \<noteq> 0 \<Longrightarrow>
   unat (GetStreamVersion (store bs) uid) + length scripts < 2 ^ 64 \<Longrightarrow>
   write_passes K uid scripts bs = Some (ns, bs') \<Longrightarrow>
     map unat ns = [unat (GetStreamVersion (store bs) uid) + 1
                     ..< unat (GetStreamVersion (store bs) uid) + 1 + length scripts]
     \<and> unat (GetStreamVersion (store bs') uid)
         = unat (GetStreamVersion (store bs) uid) + length scripts"
proof (induction scripts arbitrary: bs ns)
  case Nil
  then show ?case by simp
next
  case (Cons acts rest)
  let ?v = "GetStreamVersion (store bs) uid"
  from Cons.prems(3) obtain n bs1 ns1 where
    wp: "write_pass K uid acts bs = Some (n, bs1)"
    and rec: "write_passes K uid rest bs1 = Some (ns1, bs')"
    and ns: "ns = n # ns1"
    by (auto split: option.splits)
  from write_pass_Some [OF wp] Cons.prems(1)
  have n: "n = ?v + 1" and v1: "GetStreamVersion (store bs1) uid = ?v + 1"
    by simp_all
  have u: "unat (?v + 1) = unat ?v + 1"
    using Cons.prems(2) by (simp add: unat_word_ariths)
  then have nz: "?v + 1 \<noteq> 0"
    by (metis Suc_eq_plus1 nat.simps(3) unat_0)
  have "map unat ns1 = [unat (GetStreamVersion (store bs1) uid) + 1
                     ..< unat (GetStreamVersion (store bs1) uid) + 1 + length rest]
     \<and> unat (GetStreamVersion (store bs') uid)
         = unat (GetStreamVersion (store bs1) uid) + length rest"
    using Cons.prems(2) nz u rec by (intro Cons.IH) (simp_all add: v1)
  then have "map unat ns = (unat ?v + 1) # [Suc (unat ?v + 1) ..< Suc (unat ?v + 1) + length rest]
     \<and> unat (GetStreamVersion (store bs') uid) = unat ?v + length (acts # rest)"
    using ns n u v1 by simp
  then show ?case
    using upt_head [of "unat ?v + 1" "length rest"] by simp
qed

text \<open>
  C1, amended. For a stream whose version is 0, \<^verbatim>\<open>ObtainGeneration\<close> returns when the
  stream's mutex is free, and the generation it returns has \<^verbatim>\<open>Cur_SB\<close> at generation 1
  and \<^verbatim>\<open>New_SB\<close> at generation 2; a sequence of \<open>N\<close> write passes on the stream, each
  committed, commits the numbers \<open>2, 3, ..., N + 1\<close> in this order and leaves the version
  of the stream at \<open>N + 1\<close> (for \<open>N + 1 < 2^64\<close>).
\<close>

theorem C1_generation_numbers_start_at_two:
  assumes v: "GetStreamVersion (store bs) uid = 0"
  shows "(wlocks bs (UUIDToMapKey uid) \<noteq> Some True \<longrightarrow>
            (\<exists>g bs1. ObtainGeneration bs uid = Returns (g, bs1)))
       \<and> (\<forall>g bs1. ObtainGeneration bs uid = Returns (g, bs1) \<longrightarrow>
             gen (Cur_SB g) = 1 \<and> gen (New_SB g) = 2 \<and> Number g = 2)
       \<and> (\<forall>ns bs'. length scripts + 1 < 2 ^ 64 \<longrightarrow>
             write_passes K uid scripts bs = Some (ns, bs') \<longrightarrow>
               map unat ns = [2 ..< length scripts + 2]
               \<and> (scripts \<noteq> [] \<longrightarrow>
                    unat (GetStreamVersion (store bs') uid) = length scripts + 1))"
proof -
  have a: "wlocks bs (UUIDToMapKey uid) \<noteq> Some True \<longrightarrow>
            (\<exists>g bs1. ObtainGeneration bs uid = Returns (g, bs1))"
    using ObtainGeneration_fresh_returns [OF v] by blast
  have b: "gen (Cur_SB g) = 1 \<and> gen (New_SB g) = 2 \<and> Number g = 2"
    if "ObtainGeneration bs uid = Returns (g, bs1)" for g bs1
    using ObtainGeneration_Returns [OF that] v by (simp add: Number_def)
  have c: "map unat ns = [2 ..< length scripts + 2]
           \<and> (scripts \<noteq> [] \<longrightarrow> unat (GetStreamVersion (store bs') uid) = length scripts + 1)"
    if len: "length scripts + 1 < 2 ^ 64"
      and wps: "write_passes K uid scripts bs = Some (ns, bs')" for ns bs'
  proof (cases scripts)
    case Nil
    with wps show ?thesis by simp
  next
    case (Cons acts rest)
    from wps Cons obtain n bs1 ns1 where
      wp: "write_pass K uid acts bs = Some (n, bs1)"
      and rec: "write_passes K uid rest bs1 = Some (ns1, bs')"
      and ns: "ns = n # ns1"
      by (auto split: option.splits)
    from write_pass_Some [OF wp] v
    have n: "n = 2" and v1: "GetStreamVersion (store bs1) uid = 2"
      by simp_all
    have "map unat ns1 = [unat (GetStreamVersion (store bs1) uid) + 1
                     ..< unat (GetStreamVersion (store bs1) uid) + 1 + length rest]
     \<and> unat (GetStreamVersion (store bs') uid)
         = unat (GetStreamVersion (store bs1) uid) + length rest"
      using len Cons rec by (intro write_passes_from) (simp_all add: v1)
    then have "map unat ns = 2 # [Suc 2 ..< Suc 2 + length rest]
       \<and> unat (GetStreamVersion (store bs') uid) = length rest + 2"
      using ns n v1 by simp
    then show ?thesis
      using upt_head [of 2 "length rest"] Cons by simp
  qed
  from a b c show ?thesis by blast
qed

lemma two_passes:
  "map_option fst (write_passes K0 stream1
      [[DoAllocateVectorblock, DoUpdateRootAddr 0xFF00000000000000],
       [DoAllocateCoreblock, DoAllocateVectorblock, DoUpdateRootAddr 0xFF00000000000001]]
      (NewBlockStore K0 4 empty_provider)) = Some [2, 3]"
  by code_simp

theorem C1_generation_numbers_start_at_two_witness:
  "GetStreamVersion (store (NewBlockStore K0 4 empty_provider)) stream1 = 0
   \<and> wlocks (NewBlockStore K0 4 empty_provider) (UUIDToMapKey stream1) \<noteq> Some True
   \<and> (\<exists>g bs1. ObtainGeneration (NewBlockStore K0 4 empty_provider) stream1 = Returns (g, bs1)
         \<and> gen (Cur_SB g) = 1 \<and> gen (New_SB g) = 2)
   \<and> (\<exists>ns bs'. write_passes K0 stream1
      [[DoAllocateVectorblock, DoUpdateRootAddr 0xFF00000000000000],
       [DoAllocateCoreblock, DoAllocateVectorblock, DoUpdateRootAddr 0xFF00000000000001]]
      (NewBlockStore K0 4 empty_provider) = Some (ns, bs')
        \<and> map unat ns = [2, 3] \<and> unat (GetStreamVersion (store bs') stream1) = 3)"
proof -
  let ?bs = "NewBlockStore K0 4 empty_provider"
  let ?scripts = "[[DoAllocateVectorblock, DoUpdateRootAddr 0xFF00000000000000],
       [DoAllocateCoreblock, DoAllocateVectorblock, DoUpdateRootAddr 0xFF00000000000001]]"
  have v: "GetStreamVersion (store ?bs) stream1 = 0"
    by (simp add: GetStreamVersion_def NewBlockStore_def empty_provider_def)
  have lk: "wlocks ?bs (UUIDToMapKey stream1) \<noteq> Some True"
    by (simp add: NewBlockStore_def)
  have len: "length ?scripts + 1 < 2 ^ 64"
    by simp
  note t = C1_generation_numbers_start_at_two [OF v, of ?scripts K0]
  from t lk obtain g bs1 where ob: "ObtainGeneration ?bs stream1 = Returns (g, bs1)"
    by blast
  from t ob have gs: "gen (Cur_SB g) = 1 \<and> gen (New_SB g) = 2"
    by blast
  from two_passes obtain ns bs' where wps: "write_passes K0 stream1 ?scripts ?bs = Some (ns, bs')"
    by auto
  from t len wps have "map unat ns = [2 ..< length ?scripts + 2]
      \<and> unat (GetStreamVersion (store bs') stream1) = length ?scripts + 1"
    by blast
  then have r: "map unat ns = [2, 3] \<and> unat (GetStreamVersion (store bs') stream1) = 3"
    by (simp add: upt_conv_Cons)
  from ob gs have e1: "\<exists>g bs1. ObtainGeneration ?bs stream1 = Returns (g, bs1)
         \<and> gen (Cur_SB g) = 1 \<and> gen (New_SB g) = 2"
    by blast
  from wps r have e2: "\<exists>ns bs'. write_passes K0 stream1 ?scripts ?bs = Some (ns, bs')
        \<and> map unat ns = [2, 3] \<and> unat (GetStreamVersion (store bs') stream1) = 3"
    by (intro exI [of _ ns] exI [of _ bs'] conjI) simp_all
  show ?thesis
    by (rule conjI [OF v conjI [OF lk conjI [OF e1 e2]]])
qed

text \<open>
  C1 as stated fails: on an empty database the generation obtained for \<open>stream1\<close> has
  the number 2, not 1, and two write passes commit the numbers 2 and 3, not 1 and 2.
\<close>

theorem C1_first_generation_counterexample:
  "GetStreamVersion (store (NewBlockStore K0 4 empty_provider)) stream1 = 0
   \<and> map_outcome (Number \<circ> fst) (ObtainGeneration (NewBlockStore K0 4 empty_provider) stream1)
       = Returns 2
   \<and> map_outcome (Number \<circ> fst) (ObtainGeneration (NewBlockStore K0 4 empty_provider) stream1)
       \<noteq> Returns 1
   \<and> map_option fst (write_passes K0 stream1
        [[DoAllocateVectorblock, DoUpdateRootAddr 0xFF00000000000000],
         [DoAllocateCoreblock, DoAllocateVectorblock, DoUpdateRootAddr 0xFF00000000000001]]
        (NewBlockStore K0 4 empty_provider)) = Some [2, 3]
   \<and> map_option fst (write_passes K0 stream1
        [[DoAllocateVectorblock, DoUpdateRootAddr 0xFF00000000000000],
         [DoAllocateCoreblock, DoAllocateVectorblock, DoUpdateRootAddr 0xFF00000000000001]]
        (NewBlockStore K0 4 empty_provider)) \<noteq> Some [1, 2]"
  by code_simp

end
